theory Spec2Isabelle
  imports Complex_Main "HOL-Library.Sublist"
begin

section \<open>JavaScript primitives used by the converter\<close>

text \<open>
  Strings are lists of characters; every character stands for one UTF-16 code unit
  below 256, so \<open>length\<close> is the JavaScript \<open>length\<close> on such strings.
  A value that may be \<open>undefined\<close> or \<open>null\<close> is an \<open>option\<close>.
\<close>

text \<open>Truthiness of a possibly undefined string: defined and not empty.\<close>

fun truthy :: "string option \<Rightarrow> bool" where
  "truthy None = False"
| "truthy (Some s) = (s \<noteq> [])"

text \<open>\<open>s.split(sep)\<close> for a separator of one character: never the empty array.\<close>

fun split :: "char \<Rightarrow> string \<Rightarrow> string list" where
  "split sep [] = [[]]"
| "split sep (c # cs) =
     (let rest = split sep cs
      in if c = sep then [] # rest else (c # hd rest) # tl rest)"

text \<open>\<open>xs.join(sep)\<close>.\<close>

fun join :: "string \<Rightarrow> string list \<Rightarrow> string" where
  "join sep [] = []"
| "join sep [x] = x"
| "join sep (x # y # ys) = x @ sep @ join sep (y # ys)"

text \<open>\<open>xs.at(-k)\<close> for \<open>k > 0\<close>: counted from the end, \<open>undefined\<close> out of range.\<close>

definition at_end :: "'a list \<Rightarrow> nat \<Rightarrow> 'a option" where
  "at_end xs k = (if 0 < k \<and> k \<le> length xs then Some (xs ! (length xs - k)) else None)"

text \<open>\<open>s.startsWith(p)\<close> and \<open>s.slice(n)\<close> for \<open>n \<ge> 0\<close>.\<close>

fun startsWith :: "string \<Rightarrow> string \<Rightarrow> bool" where
  "startsWith s [] = True"
| "startsWith [] (p # ps) = False"
| "startsWith (c # cs) (p # ps) = (c = p \<and> startsWith cs ps)"

definition slice :: "string \<Rightarrow> nat \<Rightarrow> string" where
  "slice s n = drop n s"

text \<open>
  A JavaScript \<open>Map\<close> keeps its keys in insertion order: \<open>set\<close> on a key already
  present replaces the value in place, on a new key it appends.
\<close>

type_synonym ('k, 'v) jsmap = "('k \<times> 'v) list"

fun Map_get :: "('k, 'v) jsmap \<Rightarrow> 'k \<Rightarrow> 'v option" where
  "Map_get [] k = None"
| "Map_get ((k', v) # m) k = (if k' = k then Some v else Map_get m k)"

fun Map_set :: "('k, 'v) jsmap \<Rightarrow> 'k \<Rightarrow> 'v \<Rightarrow> ('k, 'v) jsmap" where
  "Map_set [] k v = [(k, v)]"
| "Map_set ((k', v') # m) k v = (if k' = k then (k, v) # m else (k', v') # Map_set m k v)"

definition Map_has :: "('k, 'v) jsmap \<Rightarrow> 'k \<Rightarrow> bool" where
  "Map_has m k = (Map_get m k \<noteq> None)"

definition Map_values :: "('k, 'v) jsmap \<Rightarrow> 'v list" where
  "Map_values m = map snd m"


text \<open>\<open>prefixLines(text, prefix)\<close> of utils.ts; the default prefix is two spaces.\<close>

definition prefixLines :: "string \<Rightarrow> string \<Rightarrow> string" where
  "prefixLines text' prefix' =
     foldl (\<lambda>s line. s @ (if s = [] then [] else ''\<newline>'') @ prefix' @ line) []
       (split CHR ''\<newline>'' text')"

text \<open>
  \<open>JSON.stringify\<close> of a string: the quotation mark, the backslash and the control
  characters are escaped, every other code unit below 256 is copied.
\<close>

definition hexdigit :: "nat \<Rightarrow> char" where
  "hexdigit n = ''0123456789abcdef'' ! (n mod 16)"

abbreviation BS :: char where "BS \<equiv> CHR 0x5C"

abbreviation DQ :: char where "DQ \<equiv> CHR 0x22"

definition JSON_escape :: "char \<Rightarrow> string" where
  "JSON_escape c =
     (if c = CHR 0x08 then [BS, CHR ''b'']
      else if c = CHR 0x09 then [BS, CHR ''t'']
      else if c = CHR 0x0A then [BS, CHR ''n'']
      else if c = CHR 0x0C then [BS, CHR ''f'']
      else if c = CHR 0x0D then [BS, CHR ''r'']
      else if c = DQ then [BS, DQ]
      else if c = BS then [BS, BS]
      else if (of_char c :: nat) < 32
        then [BS, CHR ''u'', CHR ''0'', CHR ''0'', hexdigit (of_char c div 16), hexdigit (of_char c)]
      else [c])"

definition JSON_stringify :: "string \<Rightarrow> string" where
  "JSON_stringify s = [DQ] @ concat (map JSON_escape s) @ [DQ]"

text \<open>The regular expression \<^verbatim>\<open>/^\d+(\.\d+)?$/\<close>, matched from the first character.\<close>

definition isDigit :: "char \<Rightarrow> bool" where
  "isDigit c = (c \<in> set ''0123456789'')"

fun fractionTail :: "string \<Rightarrow> bool" where
  "fractionTail [] = False"
| "fractionTail [c] = isDigit c"
| "fractionTail (c # cs) = (isDigit c \<and> fractionTail cs)"

fun digitsThen :: "string \<Rightarrow> bool" where
  "digitsThen [] = True"
| "digitsThen (c # cs) =
     (if isDigit c then digitsThen cs else c = CHR ''.'' \<and> fractionTail cs)"

fun matchesNumeric :: "string \<Rightarrow> bool" where
  "matchesNumeric [] = False"
| "matchesNumeric (c # cs) = (isDigit c \<and> digitsThen cs)"

text \<open>\<^verbatim>\<open>s.replaceAll("/", "\\/")\<close>: a backslash before every slash.\<close>

definition escapeSlashes :: "string \<Rightarrow> string" where
  "escapeSlashes s = concat (map (\<lambda>c. if c = CHR ''/'' then [BS, CHR ''/''] else [c]) s)"

text \<open>
  Numbers: the finite values (a double is a rational; the two zeros are not told
  apart, nothing here observes the difference), the infinities and NaN.
\<close>

datatype jsnum = Fin rat | Infinity | NegInfinity | NaN

fun jsnum_gt :: "jsnum \<Rightarrow> jsnum \<Rightarrow> bool" where
  "jsnum_gt NaN y = False"
| "jsnum_gt x NaN = False"
| "jsnum_gt (Fin a) (Fin b) = (a > b)"
| "jsnum_gt Infinity Infinity = False"
| "jsnum_gt Infinity y = True"
| "jsnum_gt x NegInfinity = (x \<noteq> NegInfinity)"
| "jsnum_gt x Infinity = False"
| "jsnum_gt NegInfinity y = False"

fun jsnum_eq :: "jsnum \<Rightarrow> jsnum \<Rightarrow> bool" where
  "jsnum_eq NaN y = False"
| "jsnum_eq x NaN = False"
| "jsnum_eq x y = (x = y)"

text \<open>
  What the converter takes from outside the repository: \<open>toPascalCase\<close> of
  @std/text, and the conversions between numbers and strings of the language
  (\<open>Number(s)\<close> and the template literal of a number).
\<close>

record library =
  toPascalCase :: "string \<Rightarrow> string"
  Number_of_string :: "string \<Rightarrow> jsnum"
  String_of_number :: "jsnum \<Rightarrow> string"


section \<open>The schema graph\<close>

record Annotations =
  documentation :: "string list"

text \<open>A lazy pointer: resolved against the context when a type is rendered.\<close>

record TypeReference =
  ref_namespace :: string
  ref_name :: string

record Attribute =
  attr_name :: string
  attr_type :: "TypeReference option"
  attr_required :: bool
  attr_fixed :: "string option"
  attr_annotations :: "Annotations option"

text \<open>
  An element owns its inline complex type, and a complex type its variants' elements.
  A variant is an object of its own: two variants with equal contents are still two
  variants, and \<open>===\<close> on them compares positions in the array.
\<close>

datatype Element =
  Element (el_name: string) (el_type: ElementType) (el_minOccurs: jsnum)
    (el_maxOccurs: jsnum) (el_annotations: "Annotations option")
and ElementType = Ref TypeReference | Inline ComplexType
and ComplexType =
  ComplexType (ct_name: string) (ct_annotations: "Annotations option")
    (ct_variants: "Variant list") (ct_attributes: "Attribute list")
and Variant = Variant (var_elements: "Element list")

record EnumValue =
  ev_value :: string
  ev_annotations :: "Annotations option"

record SimpleType =
  st_name :: string
  st_type :: TypeReference
  st_annotations :: "Annotations option"
  st_minInclusive :: "jsnum option"
  st_totalDigits :: "jsnum option"
  st_fractionDigits :: "jsnum option"
  st_minLength :: "jsnum option"
  st_maxLength :: "jsnum option"
  st_pattern :: "string option"
  st_enumeration :: "EnumValue list option"

record PrimitiveType =
  prim_name :: string
  prim_tsType :: string
  prim_prefix :: string

datatype TypeDefinition =
  Primitive PrimitiveType | Simple SimpleType | Complex ComplexType

record Schema =
  schema_namespace :: string
  aliasedSchemas :: "(string, string) jsmap"
  schema_elements :: "(string, Element) jsmap"
  schema_types :: "(string, TypeDefinition) jsmap"

record Context =
  schemas :: "(string, Schema) jsmap"
  stripPrefixes :: "string list"
  attributePrefix :: string

section \<open>Naming and reference resolution\<close>

text \<open>
  \<open>Context.getTSTypeName\<close>: the loop over \<open>stripPrefixes\<close> leaves at the first
  prefix the name starts with.
\<close>

fun stripFirstPrefix :: "string list \<Rightarrow> string \<Rightarrow> string" where
  "stripFirstPrefix [] name = name"
| "stripFirstPrefix (prefix' # rest) name =
     (if startsWith name prefix' then slice name (length prefix')
      else stripFirstPrefix rest name)"

definition Context_getTSTypeName :: "library \<Rightarrow> Context \<Rightarrow> string \<Rightarrow> string" where
  "Context_getTSTypeName lib ctx name =
     toPascalCase lib (stripFirstPrefix (stripPrefixes ctx) name)"

text \<open>\<open>Schema.resolveRef\<close>: \<open>null\<close> is \<open>None\<close>.\<close>

definition Schema_resolveRef :: "Schema \<Rightarrow> string \<Rightarrow> TypeReference option" where
  "Schema_resolveRef schema node =
     (let parts = split CHR '':'' node;
          name = at_end parts 1;
          ns = at_end parts 2;
          namespace =
            (case ns of
               Some alias \<Rightarrow>
                 if alias \<noteq> [] then Map_get (aliasedSchemas schema) alias
                 else Some (schema_namespace schema)
             | None \<Rightarrow> Some (schema_namespace schema))
      in if \<not> truthy name \<or> \<not> truthy namespace \<or> length parts > 2 then None
         else (case (namespace, name) of
                 (Some namespace', Some name') \<Rightarrow>
                   Some \<lparr>ref_namespace = namespace', ref_name = name'\<rparr>
               | _ \<Rightarrow> None))"

section \<open>Emission\<close>

text \<open>\<open>Annotations.toTSDoc\<close>.\<close>

definition Annotations_toTSDoc :: "Annotations \<Rightarrow> string" where
  "Annotations_toTSDoc a =
     join ''\<newline>\<newline>'' (map (\<lambda>x. prefixLines x '' * '') (documentation a))"

text \<open>
  The doc block every renderer puts before its declaration:
  \<^verbatim>\<open>`/**\n${this.annotations?.toTSDoc() || ""}\n */\n`\<close>.
\<close>

definition docBlock :: "Annotations \<Rightarrow> string" where
  "docBlock a = ''/**\<newline>'' @ Annotations_toTSDoc a @ ''\<newline> */\<newline>''"

definition PrimitiveType_toTSTypeName :: "library \<Rightarrow> Context \<Rightarrow> PrimitiveType \<Rightarrow> string" where
  "PrimitiveType_toTSTypeName lib ctx t = prim_prefix t @ Context_getTSTypeName lib ctx (prim_name t)"

definition SimpleType_toTSTypeName :: "library \<Rightarrow> Context \<Rightarrow> SimpleType \<Rightarrow> string" where
  "SimpleType_toTSTypeName lib ctx t = Context_getTSTypeName lib ctx (st_name t)"

definition ComplexType_toTSTypeName :: "library \<Rightarrow> Context \<Rightarrow> ComplexType \<Rightarrow> string" where
  "ComplexType_toTSTypeName lib ctx t = Context_getTSTypeName lib ctx (ct_name t)"

definition Element_toTSTypeName :: "library \<Rightarrow> Context \<Rightarrow> Element \<Rightarrow> string" where
  "Element_toTSTypeName lib ctx e = Context_getTSTypeName lib ctx (el_name e) @ ''Element''"

fun TypeDefinition_toTSTypeName :: "library \<Rightarrow> Context \<Rightarrow> TypeDefinition \<Rightarrow> string" where
  "TypeDefinition_toTSTypeName lib ctx (Primitive t) = PrimitiveType_toTSTypeName lib ctx t"
| "TypeDefinition_toTSTypeName lib ctx (Simple t) = SimpleType_toTSTypeName lib ctx t"
| "TypeDefinition_toTSTypeName lib ctx (Complex t) = ComplexType_toTSTypeName lib ctx t"

text \<open>
  \<open>TypeReference.toTSTypeExpr\<close>: the optional chain gives \<open>undefined\<close> when the
  schema or the type is missing, and \<open>||\<close> replaces that, and the empty string, by
  \<open>"unknown"\<close>.
\<close>

definition TypeReference_toTSTypeExpr :: "library \<Rightarrow> Context \<Rightarrow> TypeReference \<Rightarrow> string" where
  "TypeReference_toTSTypeExpr lib ctx r =
     (case Map_get (schemas ctx) (ref_namespace r) of
        None \<Rightarrow> ''unknown''
      | Some schema \<Rightarrow>
          (case Map_get (schema_types schema) (ref_name r) of
             None \<Rightarrow> ''unknown''
           | Some t \<Rightarrow>
               (let n = TypeDefinition_toTSTypeName lib ctx t
                in if n = [] then ''unknown'' else n)))"

text \<open>\<open>Attribute.toTSField\<close>.\<close>

definition Attribute_toTSField :: "library \<Rightarrow> Context \<Rightarrow> Attribute \<Rightarrow> string" where
  "Attribute_toTSField lib ctx a =
     (let fieldName = [DQ] @ attributePrefix ctx @ attr_name a @ [DQ];
          tsType =
            (case attr_type a of
               None \<Rightarrow> ''string | number''
             | Some r \<Rightarrow>
                 (let t = TypeReference_toTSTypeExpr lib ctx r
                  in if t = [] then ''string | number'' else t));
          tsType =
            (case attr_fixed a of
               None \<Rightarrow> tsType
             | Some fixed \<Rightarrow>
                 if fixed = [] then tsType
                 else JSON_stringify fixed
                      @ (if matchesNumeric fixed then '' | '' @ fixed else []));
          s = (case attr_annotations a of None \<Rightarrow> [] | Some ann \<Rightarrow> docBlock ann)
      in s @ fieldName @ (if \<not> attr_required a then ''?'' else []) @ '': '' @ tsType @ '';'')"

text \<open>
  \<open>Element.toTSField\<close> and \<open>ComplexType.toTSTypeExpr\<close> call each other through
  inline complex types. The loops over \<open>this.variants\<close> run over the variants with
  their positions, and \<open>otherVariant === variant\<close> is the equality of positions.
\<close>

function (sequential)
  Element_toTSField :: "library \<Rightarrow> Context \<Rightarrow> bool \<Rightarrow> Element \<Rightarrow> string" and
  ComplexType_toTSTypeExpr :: "library \<Rightarrow> Context \<Rightarrow> ComplexType \<Rightarrow> string"
where
  "Element_toTSField lib ctx omitDocs (Element name type' minOccurs maxOccurs annotations) =
     (let tsType =
            (case type' of
               Ref r \<Rightarrow> TypeReference_toTSTypeExpr lib ctx r
             | Inline c \<Rightarrow> ComplexType_toTSTypeExpr lib ctx c);
          tsType = (if jsnum_gt maxOccurs (Fin 1) then ''Many<'' @ tsType @ ''>'' else tsType);
          s = (case annotations of
                 None \<Rightarrow> []
               | Some ann \<Rightarrow> if \<not> omitDocs then docBlock ann else [])
      in s @ name @ (if jsnum_eq minOccurs (Fin 0) then ''?'' else []) @ '': '' @ tsType @ '';'')"
| "ComplexType_toTSTypeExpr lib ctx (ComplexType name annotations variants attributes) =
     (let s = ''XmlElement'';
          s = (if attributes \<noteq> []
               then s @ '' & {\<newline>''
                      @ prefixLines (join ''\<newline>'' (map (Attribute_toTSField lib ctx) attributes)) ''  ''
                      @ ''\<newline>}''
               else s);
          s = (if variants \<noteq> []
               then
                 (let body =
                        foldl
                          (\<lambda>body (i, variant).
                             (let fields =
                                    join ''\<newline>''
                                      (map (Element_toTSField lib ctx False) (var_elements variant));
                                  body = body @ (if body = [] then [] else '' | '')
                                           @ ''{\<newline>'' @ prefixLines fields ''  '';
                                  body =
                                    foldl
                                      (\<lambda>body (j, otherVariant).
                                         if j = i then body
                                         else foldl
                                                (\<lambda>body otherElement.
                                                   body @ ''\<newline>'' @ prefixLines [] ''  ''
                                                     @ el_name otherElement @ ''?: undefined;'')
                                                body (var_elements otherVariant))
                                      body (enumerate 0 variants)
                              in body @ ''\<newline>}''))
                          [] (enumerate 0 variants)
                  in s @ '' & '' @ (if length variants > 1 then ''('' @ body @ '')'' else body))
               else s)
      in if s = [] then ''unknown'' else s)"
  by pat_completeness auto


lemma size_element_of_variants:
  assumes "v \<in> set vs" and "e \<in> set (var_elements v)"
  shows "size e < Suc (size_list size vs)"
proof -
  have "size e \<le> size_list size (var_elements v)"
    using assms(2) by (rule size_list_estimation') simp
  also have "\<dots> < size v"
    by (cases v) simp
  also have "size v \<le> size_list size vs"
    using assms(1) by (rule size_list_estimation') simp
  finally show ?thesis by simp
qed

termination Element_toTSField
  apply (relation "measure (\<lambda>x. case x of Inl (_, _, _, e) \<Rightarrow> size e | Inr (_, _, c) \<Rightarrow> size c)")
    apply simp
   apply simp
  apply (auto simp: enumerate_eq_zip dest!: set_zip_rightD)
  apply (auto dest: size_element_of_variants)
  done

text \<open>
  The type expression \<open>Element.toTSField\<close> starts from, before the repeatable wrapper:
  the first value of its \<open>tsType\<close>.
\<close>

definition resolvedTypeExpr :: "library \<Rightarrow> Context \<Rightarrow> Element \<Rightarrow> string" where
  "resolvedTypeExpr lib ctx e =
     (case el_type e of
        Ref r \<Rightarrow> TypeReference_toTSTypeExpr lib ctx r
      | Inline c \<Rightarrow> ComplexType_toTSTypeExpr lib ctx c)"

text \<open>
  The parts of a complex type's expression in the words of the specification, for
  comparison with \<open>ComplexType.toTSTypeExpr\<close>: the line that marks an element of
  another variant as absent, the variants other than the one at a position, the member
  of the union for the variant at a position, and the record of the attributes.
\<close>

definition undefinedField :: "Element \<Rightarrow> string" where
  "undefinedField e = ''\<newline>  '' @ el_name e @ ''?: undefined;''"

definition otherVariants :: "Variant list \<Rightarrow> nat \<Rightarrow> Variant list" where
  "otherVariants variants i = take i variants @ drop (Suc i) variants"

definition unionMember :: "library \<Rightarrow> Context \<Rightarrow> Variant list \<Rightarrow> nat \<Rightarrow> string" where
  "unionMember lib ctx variants i =
     ''{\<newline>''
     @ prefixLines (join ''\<newline>'' (map (Element_toTSField lib ctx False) (var_elements (variants ! i)))) ''  ''
     @ concat (map undefinedField (concat (map var_elements (otherVariants variants i))))
     @ ''\<newline>}''"

definition attributesRecord :: "library \<Rightarrow> Context \<Rightarrow> Attribute list \<Rightarrow> string" where
  "attributesRecord lib ctx attributes =
     (if attributes = [] then []
      else '' & {\<newline>''
           @ prefixLines (join ''\<newline>'' (map (Attribute_toTSField lib ctx) attributes)) ''  ''
           @ ''\<newline>}'')"

text \<open>\<open>PrimitiveType.toTSType\<close> and \<open>ComplexType.toTSType\<close>.\<close>

definition PrimitiveType_toTSType :: "library \<Rightarrow> Context \<Rightarrow> PrimitiveType \<Rightarrow> string" where
  "PrimitiveType_toTSType lib ctx t =
     ''export type '' @ PrimitiveType_toTSTypeName lib ctx t @ '' = '' @ prim_tsType t @ '';''"

definition ComplexType_toTSType :: "library \<Rightarrow> Context \<Rightarrow> ComplexType \<Rightarrow> string" where
  "ComplexType_toTSType lib ctx t =
     (let s = (case ct_annotations t of None \<Rightarrow> [] | Some ann \<Rightarrow> docBlock ann)
      in s @ ''export type '' @ ComplexType_toTSTypeName lib ctx t @ '' = ''
           @ ComplexType_toTSTypeExpr lib ctx t @ '';'')"

text \<open>
  \<open>SimpleType.toTSType\<close>, in the parts the method has: the type expression, the doc
  text (the annotation and the list of possible values, then the facets), and the
  declaration.
\<close>

definition SimpleType_tsType :: "library \<Rightarrow> Context \<Rightarrow> SimpleType \<Rightarrow> string" where
  "SimpleType_tsType lib ctx t =
     (let tsType =
            (let e = TypeReference_toTSTypeExpr lib ctx (st_type t)
             in if e = [] then ''unknown'' else e)
      in case st_enumeration t of
           None \<Rightarrow> tsType
         | Some enumeration \<Rightarrow>
             if enumeration = [] then tsType
             else foldl
                    (\<lambda>tsType variant.
                       (let tsType = tsType @ (if tsType = [] then [] else '' | '')
                                       @ JSON_stringify (ev_value variant)
                        in if matchesNumeric (ev_value variant)
                           then tsType @ '' | '' @ ev_value variant
                           else tsType))
                    [] enumeration)"

text \<open>\<open>x.annotations?.documentation?.length\<close> as a condition.\<close>

definition hasDocumentation :: "EnumValue \<Rightarrow> bool" where
  "hasDocumentation x =
     (case ev_annotations x of None \<Rightarrow> False | Some ann \<Rightarrow> documentation ann \<noteq> [])"

definition SimpleType_valueDocs :: "SimpleType \<Rightarrow> string" where
  "SimpleType_valueDocs t =
     (let docs = (case st_annotations t of None \<Rightarrow> [] | Some ann \<Rightarrow> Annotations_toTSDoc ann)
      in case st_enumeration t of
           None \<Rightarrow> docs
         | Some enumeration \<Rightarrow>
             if list_ex hasDocumentation enumeration
             then foldl
                    (\<lambda>docs variant.
                       (let doc = (case ev_annotations variant of
                                     None \<Rightarrow> []
                                   | Some ann \<Rightarrow> documentation ann);
                            docs = docs @ ''\<newline> * - '' @ ev_value variant @ '': ''
                                     @ (case doc of [] \<Rightarrow> [] | d # _ \<Rightarrow> d)
                        in foldl
                             (\<lambda>docs line.
                                docs @ '' * '' @ replicate (length (ev_value variant) + 3) CHR '' ''
                                  @ '' '' @ line)
                             docs (tl doc)))
                    (docs @ (if docs = [] then [] else ''\<newline> *\<newline>'') @ '' * Possible values:'')
                    enumeration
             else docs)"

text \<open>
  One facet of the doc text: \<^verbatim>\<open>if (facet != null) docs += (docs && "\n") + label + text\<close>.
\<close>

definition addFacet :: "string \<Rightarrow> string \<Rightarrow> string option \<Rightarrow> string" where
  "addFacet docs label facet =
     (case facet of
        None \<Rightarrow> docs
      | Some text' \<Rightarrow> docs @ (if docs = [] then [] else ''\<newline>'') @ label @ text')"

definition SimpleType_docs :: "library \<Rightarrow> SimpleType \<Rightarrow> string" where
  "SimpleType_docs lib t =
     (let docs = SimpleType_valueDocs t
      in if st_minInclusive t \<noteq> None \<or> st_totalDigits t \<noteq> None \<or> st_fractionDigits t \<noteq> None
            \<or> st_minLength t \<noteq> None \<or> st_maxLength t \<noteq> None \<or> st_pattern t \<noteq> None
         then
           (let docs = docs @ ''\<newline> *'';
                docs = addFacet docs '' * Min: ''
                         (map_option (String_of_number lib) (st_minInclusive t));
                docs = addFacet docs '' * Total digits: ''
                         (map_option (String_of_number lib) (st_totalDigits t));
                docs = addFacet docs '' * Fraction digits: ''
                         (map_option (String_of_number lib) (st_fractionDigits t));
                docs = addFacet docs '' * Min length: ''
                         (map_option (String_of_number lib) (st_minLength t));
                docs = addFacet docs '' * Max length: ''
                         (map_option (String_of_number lib) (st_maxLength t));
                docs = addFacet docs '' * Pattern: ''
                         (map_option (\<lambda>p. ''/'' @ escapeSlashes p @ ''/'') (st_pattern t))
            in docs)
         else docs)"

definition SimpleType_toTSType :: "library \<Rightarrow> Context \<Rightarrow> SimpleType \<Rightarrow> string" where
  "SimpleType_toTSType lib ctx t =
     (let tsType = SimpleType_tsType lib ctx t;
          docs = SimpleType_docs lib t;
          s = (if docs \<noteq> [] then ''/**\<newline>'' @ docs @ ''\<newline> */\<newline>'' else [])
      in s @ ''export type '' @ SimpleType_toTSTypeName lib ctx t @ '' = '' @ tsType @ '';'')"

text \<open>
  Two definitions that follow the words of the specification, for comparison with
  \<open>SimpleType.toTSType\<close>. The literals of a value in a union: its JSON-quoted string,
  followed by the bare number when the value is syntactically numeric. The facet lines
  of a simple type: one line per facet present, in the order Min, Total digits,
  Fraction digits, Min length, Max length, Pattern.
\<close>

definition literalsOf :: "string \<Rightarrow> string list" where
  "literalsOf v = JSON_stringify v # (if matchesNumeric v then [v] else [])"

definition facetLines :: "library \<Rightarrow> SimpleType \<Rightarrow> string list" where
  "facetLines lib t =
     List.map_filter id
       [map_option (\<lambda>n. '' * Min: '' @ String_of_number lib n) (st_minInclusive t),
        map_option (\<lambda>n. '' * Total digits: '' @ String_of_number lib n) (st_totalDigits t),
        map_option (\<lambda>n. '' * Fraction digits: '' @ String_of_number lib n) (st_fractionDigits t),
        map_option (\<lambda>n. '' * Min length: '' @ String_of_number lib n) (st_minLength t),
        map_option (\<lambda>n. '' * Max length: '' @ String_of_number lib n) (st_maxLength t),
        map_option (\<lambda>p. '' * Pattern: /'' @ escapeSlashes p @ ''/'') (st_pattern t)]"

text \<open>\<open>Element.toTSType\<close>: the declaration of a top-level element.\<close>

definition Element_toTSType :: "library \<Rightarrow> Context \<Rightarrow> Element \<Rightarrow> string" where
  "Element_toTSType lib ctx e =
     (let s = (case el_annotations e of None \<Rightarrow> [] | Some ann \<Rightarrow> docBlock ann)
      in s @ ''export type '' @ Element_toTSTypeName lib ctx e @ '' = Prolog & {\<newline>''
           @ prefixLines (Element_toTSField lib ctx True e) ''  '' @ ''\<newline>};'')"

fun TypeDefinition_toTSType :: "library \<Rightarrow> Context \<Rightarrow> TypeDefinition \<Rightarrow> string" where
  "TypeDefinition_toTSType lib ctx (Primitive t) = PrimitiveType_toTSType lib ctx t"
| "TypeDefinition_toTSType lib ctx (Simple t) = SimpleType_toTSType lib ctx t"
| "TypeDefinition_toTSType lib ctx (Complex t) = ComplexType_toTSType lib ctx t"

text \<open>
  \<open>Schema.toTS\<close>: the types, then the elements, in the order of the maps; a
  declaration that is the empty string is left out.
\<close>

definition appendBlock :: "string \<Rightarrow> string \<Rightarrow> string" where
  "appendBlock s tsType =
     (if tsType = [] then s
      else s @ (if s = [] then [] else ''\<newline>\<newline>'') @ tsType)"

definition Schema_toTS :: "library \<Rightarrow> Context \<Rightarrow> Schema \<Rightarrow> string" where
  "Schema_toTS lib ctx schema =
     (let s = foldl (\<lambda>s type'. appendBlock s (TypeDefinition_toTSType lib ctx type'))
                [] (Map_values (schema_types schema));
          s = foldl (\<lambda>s element. appendBlock s (Element_toTSType lib ctx element))
                s (Map_values (schema_elements schema))
      in s)"

text \<open>\<open>Context.toTS\<close>: the fixed preamble, then every schema that renders to text.\<close>

definition preamble :: "Context \<Rightarrow> string" where
  "preamble ctx =
     ''/// File generated automatically from XSD\<newline>\<newline>''
     @ ''type Many<T> = T | readonly T[];\<newline>\<newline>''
     @ ''type XmlElement = {\<newline>''
     @ ''  '' @ [DQ] @ attributePrefix ctx @ ''xmlns'' @ [DQ] @ ''?: string;\<newline>''
     @ ''  [ns: '' @ [CHR 0x60] @ attributePrefix ctx @ ''xmlns:${string}'' @ [CHR 0x60]
     @ '']: string | undefined;\<newline>''
     @ ''};\<newline>\<newline>''
     @ ''type Prolog = { '' @ [DQ] @ ''?xml'' @ [DQ] @ ''?: { '' @ [DQ] @ attributePrefix ctx
     @ ''version'' @ [DQ] @ '': string, '' @ [DQ] @ attributePrefix ctx @ ''encoding'' @ [DQ]
     @ '': string } };''"

definition Context_toTS :: "library \<Rightarrow> Context \<Rightarrow> string" where
  "Context_toTS lib ctx =
     foldl
       (\<lambda>s schema.
          (let tsSchema = Schema_toTS lib ctx schema
           in if tsSchema = [] then s else s @ ''\<newline>\<newline>'' @ tsSchema))
       (preamble ctx) (Map_values (schemas ctx))"


section \<open>Parsed documents\<close>

text \<open>
  The tree the parser hands over (xsd.ts). A value of type \<open>Many<T>\<close> is one item or
  an array of items. Where the converter reads a field only through
  \<open>asArray(field ?? [])\<close>, the field is held as the list that expression yields. An
  attribute typed \<open>string | number\<close> is an \<open>attrval\<close>.
\<close>

datatype 'a Many = One 'a | Arr "'a list"

fun asArray :: "'a Many \<Rightarrow> 'a list" where
  "asArray (One v) = [v]"
| "asArray (Arr vs) = vs"

datatype attrval = Str string | Num jsnum

text \<open>Truthiness of an attribute value, and \<open>Number(v)\<close>.\<close>

fun attrval_truthy :: "attrval \<Rightarrow> bool" where
  "attrval_truthy (Str s) = (s \<noteq> [])"
| "attrval_truthy (Num n) = (n \<noteq> Fin 0 \<and> n \<noteq> NaN)"

fun Number :: "library \<Rightarrow> attrval \<Rightarrow> jsnum" where
  "Number lib (Str s) = Number_of_string lib s"
| "Number lib (Num n) = n"

record XsAnnotation =
  xsd_documentation :: "string Many option"

record XsAttribute =
  xa_name :: string
  xa_type :: "string option"
  xa_use :: "string option"
  xa_fixed :: "string option"
  xa_annotation :: "XsAnnotation Many option"

datatype XsElement =
  XsElement (xe_shape: XsElementShape) (xe_minOccurs: "attrval option")
    (xe_maxOccurs: "attrval option") (xe_annotation: "XsAnnotation Many option")
and XsElementShape =
    ByRef string
  | ByType string string
  | ByComplexType string XsNestedElements
and XsNestedElements =
  XsNestedElements (xn_attribute: "XsAttribute list") (xn_sequence: "XsElement list")
    (xn_choice: "XsElement list")

record XsEnumeration =
  xv_value :: string
  xv_annotation :: "XsAnnotation Many option"

record XsRestriction =
  xr_base :: string
  xr_minInclusive :: "attrval option"
  xr_totalDigits :: "attrval option"
  xr_fractionDigits :: "attrval option"
  xr_minLength :: "attrval option"
  xr_maxLength :: "attrval option"
  xr_pattern :: "string option"
  xr_enumeration :: "XsEnumeration list"

record XsSimpleType =
  xst_name :: string
  xst_annotation :: "XsAnnotation Many option"
  xst_restriction :: XsRestriction

record XsComplexType =
  xct_name :: string
  xct_annotation :: "XsAnnotation Many option"
  xct_nested :: XsNestedElements

record XsImport =
  xi_namespace :: string
  xi_schemaLocation :: string

text \<open>
  \<open>xs_keys\<close> holds the string-valued keys of the schema node with their values, in
  the order \<open>for (const key in node)\<close> visits them.
\<close>

record XsSchema =
  xs_targetNamespace :: string
  xs_keys :: "(string \<times> string) list"
  xs_import :: "XsImport list"
  xs_element :: "XsElement list"
  xs_simpleType :: "XsSimpleType list"
  xs_complexType :: "XsComplexType list"

section \<open>Loading\<close>

text \<open>Every \<open>throw\<close> of the converter, and the failure to read or parse a document.\<close>

datatype error =
    InvalidTypeReference string
  | InvalidElementReference string
  | ElementNotFound string string
  | LoadFailure string

text \<open>\<open>Annotations.fromXsd\<close>: \<open>flatMap\<close> over \<open>x["documentation"] || []\<close>.\<close>

definition Annotations_fromXsd :: "XsAnnotation Many \<Rightarrow> Annotations" where
  "Annotations_fromXsd node =
     \<lparr>documentation =
        concat (map (\<lambda>x. case xsd_documentation x of
                            None \<Rightarrow> []
                          | Some (One d) \<Rightarrow> if d = [] then [] else [d]
                          | Some (Arr ds) \<Rightarrow> ds)
                  (asArray node))\<rparr>"

definition TypeReference_fromXsd :: "Schema \<Rightarrow> string \<Rightarrow> error + TypeReference" where
  "TypeReference_fromXsd schema node =
     (case Schema_resolveRef schema node of
        None \<Rightarrow> Inl (InvalidTypeReference node)
      | Some ref \<Rightarrow> Inr ref)"

definition Attribute_fromXsd :: "Schema \<Rightarrow> XsAttribute \<Rightarrow> error + Attribute" where
  "Attribute_fromXsd schema node =
     (case (case xa_type node of
              None \<Rightarrow> Inr None
            | Some type' \<Rightarrow>
                if type' \<noteq> [] then map_sum id Some (TypeReference_fromXsd schema type')
                else Inr None) of
        Inl e \<Rightarrow> Inl e
      | Inr type' \<Rightarrow>
          Inr \<lparr>attr_name = xa_name node,
               attr_type = type',
               attr_required = (xa_use node = Some ''required''),
               attr_fixed = (if truthy (xa_fixed node) then xa_fixed node else None),
               attr_annotations = map_option Annotations_fromXsd (xa_annotation node)\<rparr>)"

fun Attributes_fromXsd :: "Schema \<Rightarrow> XsAttribute list \<Rightarrow> error + Attribute list" where
  "Attributes_fromXsd schema [] = Inr []"
| "Attributes_fromXsd schema (node # nodes) =
     (case Attribute_fromXsd schema node of
        Inl e \<Rightarrow> Inl e
      | Inr a \<Rightarrow>
          (case Attributes_fromXsd schema nodes of
             Inl e \<Rightarrow> Inl e
           | Inr as \<Rightarrow> Inr (a # as)))"

text \<open>The lookup \<open>ctx.schemas.get(namespace)?.elements.get(name)\<close>.\<close>

definition Context_element :: "Context \<Rightarrow> string \<Rightarrow> string \<Rightarrow> Element option" where
  "Context_element ctx namespace name =
     (case Map_get (schemas ctx) namespace of
        None \<Rightarrow> None
      | Some schema \<Rightarrow> Map_get (schema_elements schema) name)"

text \<open>
  \<open>Element.fromXsd\<close> and \<open>ComplexType.fromXsd\<close>. An element found through
  \<open>ref=\<close> gives its name and its type; the occurrence bounds are those of the
  referring node. A falsy \<open>@_minOccurs\<close> or \<open>@_maxOccurs\<close> leaves the default.
\<close>

fun
  Element_fromXsd :: "library \<Rightarrow> Context \<Rightarrow> Schema \<Rightarrow> XsElement \<Rightarrow> error + Element" and
  Elements_fromXsd :: "library \<Rightarrow> Context \<Rightarrow> Schema \<Rightarrow> XsElement list \<Rightarrow> error + Element list" and
  ComplexType_fromXsd ::
    "library \<Rightarrow> Context \<Rightarrow> Schema \<Rightarrow> string \<Rightarrow> XsAnnotation Many option \<Rightarrow> XsNestedElements
      \<Rightarrow> error + ComplexType"
where
  "Element_fromXsd lib ctx schema (XsElement shape minOccurs maxOccurs annotation) =
     (case (case shape of
              ByRef ref' \<Rightarrow>
                (case Schema_resolveRef schema ref' of
                   None \<Rightarrow> Inl (InvalidElementReference ref')
                 | Some ref \<Rightarrow>
                     (case Context_element ctx (ref_namespace ref) (ref_name ref) of
                        None \<Rightarrow> Inl (ElementNotFound (ref_namespace ref) (ref_name ref))
                      | Some el \<Rightarrow> Inr (el_name el, el_type el)))
            | ByType name type' \<Rightarrow>
                (case TypeReference_fromXsd schema type' of
                   Inl e \<Rightarrow> Inl e
                 | Inr ref \<Rightarrow> Inr (name, Ref ref))
            | ByComplexType name nested \<Rightarrow>
                (case ComplexType_fromXsd lib ctx schema name None nested of
                   Inl e \<Rightarrow> Inl e
                 | Inr c \<Rightarrow> Inr (name, Inline c))) of
        Inl e \<Rightarrow> Inl e
      | Inr (name, type') \<Rightarrow>
          Inr (Element name type'
                 (case minOccurs of
                    None \<Rightarrow> Fin 0
                  | Some v \<Rightarrow> if attrval_truthy v then Number lib v else Fin 0)
                 (case maxOccurs of
                    None \<Rightarrow> Infinity
                  | Some v \<Rightarrow>
                      if attrval_truthy v \<and> v \<noteq> Str ''unbounded'' then Number lib v
                      else Infinity)
                 (map_option Annotations_fromXsd annotation)))"
| "Elements_fromXsd lib ctx schema [] = Inr []"
| "Elements_fromXsd lib ctx schema (node # nodes) =
     (case Element_fromXsd lib ctx schema node of
        Inl e \<Rightarrow> Inl e
      | Inr el \<Rightarrow>
          (case Elements_fromXsd lib ctx schema nodes of
             Inl e \<Rightarrow> Inl e
           | Inr els \<Rightarrow> Inr (el # els)))"
| "ComplexType_fromXsd lib ctx schema name annotation (XsNestedElements attribute sequence' choice) =
     (case Elements_fromXsd lib ctx schema sequence' of
        Inl e \<Rightarrow> Inl e
      | Inr sequence \<Rightarrow>
          (case Elements_fromXsd lib ctx schema choice of
             Inl e \<Rightarrow> Inl e
           | Inr chosen \<Rightarrow>
               (case Attributes_fromXsd schema attribute of
                  Inl e \<Rightarrow> Inl e
                | Inr attributes \<Rightarrow>
                    Inr (ComplexType name (map_option Annotations_fromXsd annotation)
                           ((if sequence \<noteq> [] then [Variant sequence] else [])
                            @ map (\<lambda>element. Variant [element]) chosen)
                           attributes))))"


text \<open>\<open>SimpleType.fromXsd\<close>: the restriction base must resolve.\<close>

definition SimpleType_fromXsd :: "library \<Rightarrow> Schema \<Rightarrow> XsSimpleType \<Rightarrow> error + SimpleType" where
  "SimpleType_fromXsd lib schema node =
     (let restriction = xst_restriction node
      in case TypeReference_fromXsd schema (xr_base restriction) of
           Inl e \<Rightarrow> Inl e
         | Inr ref \<Rightarrow>
             (let enumeration =
                    map (\<lambda>x. \<lparr>ev_value = xv_value x,
                               ev_annotations = map_option Annotations_fromXsd (xv_annotation x)\<rparr>)
                      (xr_enumeration restriction)
              in Inr \<lparr>st_name = xst_name node,
                      st_type = ref,
                      st_annotations = map_option Annotations_fromXsd (xst_annotation node),
                      st_minInclusive = map_option (Number lib) (xr_minInclusive restriction),
                      st_totalDigits = map_option (Number lib) (xr_totalDigits restriction),
                      st_fractionDigits = map_option (Number lib) (xr_fractionDigits restriction),
                      st_minLength = map_option (Number lib) (xr_minLength restriction),
                      st_maxLength = map_option (Number lib) (xr_maxLength restriction),
                      st_pattern = xr_pattern restriction,
                      st_enumeration = (if enumeration \<noteq> [] then Some enumeration else None)\<rparr>))"

text \<open>
  \<open>new Schema(ctx, namespace)\<close>, and the schema object \<open>o\<close> of \<open>Schema.fromXsd\<close>:
  the entry of \<open>ctx.schemas\<close> under the namespace, which \<open>Schema.fromXsd\<close> creates
  when it is missing and which nothing replaces. The object is read through its key,
  and a statement that changes the object changes the entry under that key, in place.
\<close>

definition Schema_new :: "string \<Rightarrow> Schema" where
  "Schema_new namespace =
     \<lparr>schema_namespace = namespace, aliasedSchemas = [], schema_elements = [], schema_types = []\<rparr>"

definition Context_schema :: "Context \<Rightarrow> string \<Rightarrow> Schema" where
  "Context_schema ctx namespace =
     (case Map_get (schemas ctx) namespace of
        Some schema \<Rightarrow> schema
      | None \<Rightarrow> Schema_new namespace)"

definition Context_putSchema :: "Context \<Rightarrow> string \<Rightarrow> Schema \<Rightarrow> Context" where
  "Context_putSchema ctx namespace schema =
     ctx\<lparr>schemas := Map_set (schemas ctx) namespace schema\<rparr>"

text \<open>\<open>Schema.addElement\<close> and \<open>Schema.addType\<close>; the log lines are left out.\<close>

definition Schema_addElement :: "Schema \<Rightarrow> Element \<Rightarrow> Schema" where
  "Schema_addElement schema el =
     schema\<lparr>schema_elements := Map_set (schema_elements schema) (el_name el) el\<rparr>"

fun TypeDefinition_name :: "TypeDefinition \<Rightarrow> string" where
  "TypeDefinition_name (Primitive t) = prim_name t"
| "TypeDefinition_name (Simple t) = st_name t"
| "TypeDefinition_name (Complex t) = ct_name t"

definition Schema_addType :: "Schema \<Rightarrow> TypeDefinition \<Rightarrow> Schema" where
  "Schema_addType schema type' =
     schema\<lparr>schema_types := Map_set (schema_types schema) (TypeDefinition_name type') type'\<rparr>"

text \<open>
  What loading takes from the host: \<open>new URL(path)\<close> (its origin and pathname, or
  \<open>None\<close> when it throws), \<open>path.dirname\<close>, \<open>path.join\<close>, and reading and parsing
  a document down to its \<open>schema\<close> node (\<open>None\<close> when that fails).
\<close>

record host =
  URL_parse :: "string \<Rightarrow> (string \<times> string) option"
  path_dirname :: "string \<Rightarrow> string"
  path_join :: "string \<Rightarrow> string \<Rightarrow> string"
  readSchema :: "string \<Rightarrow> XsSchema option"

text \<open>\<open>cwdFromPath\<close> of utils.ts.\<close>

definition cwdFromPath :: "host \<Rightarrow> string \<Rightarrow> string" where
  "cwdFromPath h path' =
     (case URL_parse h path' of
        Some (origin, pathname) \<Rightarrow> origin @ path_dirname h pathname
      | None \<Rightarrow> path_dirname h path')"

text \<open>The loops of \<open>Schema.fromXsd\<close> after the imports.\<close>

definition declareAliases :: "Schema \<Rightarrow> (string \<times> string) list \<Rightarrow> Schema" where
  "declareAliases schema keys =
     foldl
       (\<lambda>schema (key, nsNamespace).
          if \<not> startsWith key ''@_xmlns:'' then schema
          else schema\<lparr>aliasedSchemas := Map_set (aliasedSchemas schema) (slice key 8) nsNamespace\<rparr>)
       schema keys"

fun registerElements :: "library \<Rightarrow> Context \<Rightarrow> string \<Rightarrow> XsElement list \<Rightarrow> error + Context" where
  "registerElements lib ctx namespace [] = Inr ctx"
| "registerElements lib ctx namespace (elementNode # nodes) =
     (case Element_fromXsd lib ctx (Context_schema ctx namespace) elementNode of
        Inl e \<Rightarrow> Inl e
      | Inr element \<Rightarrow>
          registerElements lib
            (Context_putSchema ctx namespace
               (Schema_addElement (Context_schema ctx namespace) element))
            namespace nodes)"

fun registerSimpleTypes :: "library \<Rightarrow> Context \<Rightarrow> string \<Rightarrow> XsSimpleType list \<Rightarrow> error + Context" where
  "registerSimpleTypes lib ctx namespace [] = Inr ctx"
| "registerSimpleTypes lib ctx namespace (simpleTypeNode # nodes) =
     (case SimpleType_fromXsd lib (Context_schema ctx namespace) simpleTypeNode of
        Inl e \<Rightarrow> Inl e
      | Inr t \<Rightarrow>
          registerSimpleTypes lib
            (Context_putSchema ctx namespace
               (Schema_addType (Context_schema ctx namespace) (Simple t)))
            namespace nodes)"

fun registerComplexTypes :: "library \<Rightarrow> Context \<Rightarrow> string \<Rightarrow> XsComplexType list \<Rightarrow> error + Context" where
  "registerComplexTypes lib ctx namespace [] = Inr ctx"
| "registerComplexTypes lib ctx namespace (complexTypeNode # nodes) =
     (case ComplexType_fromXsd lib ctx (Context_schema ctx namespace) (xct_name complexTypeNode)
             (xct_annotation complexTypeNode) (xct_nested complexTypeNode) of
        Inl e \<Rightarrow> Inl e
      | Inr t \<Rightarrow>
          registerComplexTypes lib
            (Context_putSchema ctx namespace
               (Schema_addType (Context_schema ctx namespace) (Complex t)))
            namespace nodes)"

text \<open>
  The loop over the imports, given the function that loads a document: an import whose
  namespace the context already has is skipped. A result is \<open>None\<close> when the loading
  does not come to an end, \<open>Some (Inl e)\<close> when it throws.
\<close>

fun loadImports ::
  "(Context \<Rightarrow> string \<Rightarrow> (error + Context) option) \<Rightarrow> host \<Rightarrow> string \<Rightarrow> Context \<Rightarrow> XsImport list
    \<Rightarrow> (error + Context) option"
where
  "loadImports load h cwd ctx [] = Some (Inr ctx)"
| "loadImports load h cwd ctx (importNode # nodes) =
     (if Map_has (schemas ctx) (xi_namespace importNode) then loadImports load h cwd ctx nodes
      else
        (let location = xi_schemaLocation importNode;
             path' = (if startsWith location ''/'' \<or> startsWith location ''http://''
                         \<or> startsWith location ''https://''
                      then location else path_join h cwd location)
         in case load ctx path' of
              None \<Rightarrow> None
            | Some (Inl e) \<Rightarrow> Some (Inl e)
            | Some (Inr ctx') \<Rightarrow> loadImports load h cwd ctx' nodes))"

text \<open>
  \<open>Schema.fromXsd\<close> and \<open>Context.loadSchema\<close> call each other through the imports,
  with nothing that bounds the depth; the first argument of \<open>Schema_fromXsd\<close> is the
  number of nested loads allowed. \<open>loadSchemaWith\<close> is \<open>Context.loadSchema\<close> given
  the ingestion it ends with, and \<open>enterSchema\<close> is the start of \<open>Schema.fromXsd\<close>:
  the schema of the target namespace, created when missing, takes the aliases the node
  declares.
\<close>

definition loadSchemaWith ::
  "(Context \<Rightarrow> XsSchema \<Rightarrow> string \<Rightarrow> (error + Context) option) \<Rightarrow> host \<Rightarrow> Context \<Rightarrow> string
    \<Rightarrow> (error + Context) option"
where
  "loadSchemaWith fromXsd h ctx path' =
     (case readSchema h path' of
        None \<Rightarrow> Some (Inl (LoadFailure path'))
      | Some xsd \<Rightarrow> fromXsd ctx xsd (cwdFromPath h path'))"

definition enterSchema :: "Context \<Rightarrow> XsSchema \<Rightarrow> Context" where
  "enterSchema ctx node =
     (let namespace = xs_targetNamespace node;
          ctx = (if Map_get (schemas ctx) namespace = None
                 then Context_putSchema ctx namespace (Schema_new namespace) else ctx)
      in Context_putSchema ctx namespace
           (declareAliases (Context_schema ctx namespace) (xs_keys node)))"

fun Schema_fromXsd ::
  "nat \<Rightarrow> library \<Rightarrow> host \<Rightarrow> Context \<Rightarrow> XsSchema \<Rightarrow> string \<Rightarrow> (error + Context) option"
where
  "Schema_fromXsd 0 lib h ctx node cwd = None"
| "Schema_fromXsd (Suc fuel) lib h ctx node cwd =
     (let namespace = xs_targetNamespace node
      in case loadImports (loadSchemaWith (Schema_fromXsd fuel lib h) h) h cwd
                (enterSchema ctx node) (xs_import node) of
           None \<Rightarrow> None
         | Some (Inl e) \<Rightarrow> Some (Inl e)
         | Some (Inr ctx) \<Rightarrow>
             Some (case registerElements lib ctx namespace (xs_element node) of
                     Inl e \<Rightarrow> Inl e
                   | Inr ctx \<Rightarrow>
                       (case registerSimpleTypes lib ctx namespace (xs_simpleType node) of
                          Inl e \<Rightarrow> Inl e
                        | Inr ctx \<Rightarrow>
                            registerComplexTypes lib ctx namespace (xs_complexType node))))"

definition Context_loadSchema ::
  "nat \<Rightarrow> library \<Rightarrow> host \<Rightarrow> Context \<Rightarrow> string \<Rightarrow> (error + Context) option"
where
  "Context_loadSchema fuel lib h ctx path' = loadSchemaWith (Schema_fromXsd fuel lib h) h ctx path'"

text \<open>\<open>new Context()\<close>: the two built-in namespaces.\<close>

definition XS_PRIMITIVE_TYPES :: "(string \<times> string) list" where
  "XS_PRIMITIVE_TYPES =
     [(''string'', ''string''),
      (''int'', ''number | string''),
      (''short'', ''number | string''),
      (''long'', ''number | string''),
      (''decimal'', ''number | string''),
      (''boolean'', ''boolean | '' @ [DQ] @ ''true'' @ [DQ] @ '' | '' @ [DQ] @ ''false'' @ [DQ]),
      (''base64Binary'', ''string''),
      (''date'', ''string''),
      (''dateTime'', ''string'')]"

definition Context_new :: Context where
  "Context_new =
     (let xs = foldl
                 (\<lambda>xs (name, tsType).
                    Schema_addType xs
                      (Primitive \<lparr>prim_name = name, prim_tsType = tsType, prim_prefix = ''Xs''\<rparr>))
                 (Schema_new ''http://www.w3.org/2001/XMLSchema'') XS_PRIMITIVE_TYPES;
          ds = Schema_new ''http://www.w3.org/2000/09/xmldsig#'';
          ds = Schema_addType ds
                 (Primitive \<lparr>prim_name = ''SignatureType'', prim_tsType = ''unknown'',
                             prim_prefix = []\<rparr>);
          ds = Schema_addElement ds
                 (Element ''Signature''
                    (Ref \<lparr>ref_namespace = schema_namespace ds, ref_name = ''SignatureType''\<rparr>)
                    (Fin 0) Infinity None)
      in \<lparr>schemas = Map_set (Map_set [] (schema_namespace xs) xs) (schema_namespace ds) ds,
          stripPrefixes = [],
          attributePrefix = ''@_''\<rparr>)"

text \<open>
  \<open>main\<close> of main.ts, from the parsed arguments on: it sets up the context
  (\<open>configure\<close>), loads the documents in turn and prints the rendering; a rejected
  load ends the process with exit code 1 and nothing printed (\<open>Inl\<close>).
\<close>

fun loadAll ::
  "nat \<Rightarrow> library \<Rightarrow> host \<Rightarrow> Context \<Rightarrow> string list \<Rightarrow> (error + Context) option"
where
  "loadAll fuel lib h ctx [] = Some (Inr ctx)"
| "loadAll fuel lib h ctx (path' # paths) =
     (case Context_loadSchema fuel lib h ctx path' of
        None \<Rightarrow> None
      | Some (Inl e) \<Rightarrow> Some (Inl e)
      | Some (Inr ctx') \<Rightarrow> loadAll fuel lib h ctx' paths)"

definition configure :: "string list \<Rightarrow> string option \<Rightarrow> Context" where
  "configure stripPrefix attributePrefix' =
     (let ctx = Context_new\<lparr>stripPrefixes := stripPrefix\<rparr>
      in case attributePrefix' of
           None \<Rightarrow> ctx
         | Some p \<Rightarrow> if p \<noteq> [] then ctx\<lparr>attributePrefix := p\<rparr> else ctx)"

definition main ::
  "nat \<Rightarrow> library \<Rightarrow> host \<Rightarrow> string list \<Rightarrow> string option \<Rightarrow> string list \<Rightarrow> (error + string) option"
where
  "main fuel lib h stripPrefix attributePrefix' positionals =
     map_option (map_sum id (Context_toTS lib))
       (loadAll fuel lib h (configure stripPrefix attributePrefix') positionals)"

text \<open>
  Whether a reference has a target in the context: a type, or an element, registered
  under its namespace and name.
\<close>

definition typeRegistered :: "Context \<Rightarrow> TypeReference \<Rightarrow> bool" where
  "typeRegistered ctx r =
     (case Map_get (schemas ctx) (ref_namespace r) of
        None \<Rightarrow> False
      | Some schema \<Rightarrow> Map_has (schema_types schema) (ref_name r))"

definition elementRegistered :: "Context \<Rightarrow> TypeReference \<Rightarrow> bool" where
  "elementRegistered ctx r = (Context_element ctx (ref_namespace r) (ref_name r) \<noteq> None)"

text \<open>
  The \<open>ref=\<close> attributes of an element node and of the element nodes nested in it
  at any depth, through the \<open>sequence\<close> and \<open>choice\<close> of inline complex types; and
  those of the body of a complex type.
\<close>

fun
  XsElement_refs :: "XsElement \<Rightarrow> string list" and
  XsElements_refs :: "XsElement list \<Rightarrow> string list" and
  XsNestedElements_refs :: "XsNestedElements \<Rightarrow> string list"
where
  "XsElement_refs (XsElement shape minOccurs maxOccurs annotation) =
     (case shape of
        ByRef ref' \<Rightarrow> [ref']
      | ByType name type' \<Rightarrow> []
      | ByComplexType name nested \<Rightarrow> XsNestedElements_refs nested)"
| "XsElements_refs [] = []"
| "XsElements_refs (node # nodes) = XsElement_refs node @ XsElements_refs nodes"
| "XsNestedElements_refs (XsNestedElements attribute sequence' choice) =
     XsElements_refs sequence' @ XsElements_refs choice"



section \<open>Properties of naming and reference resolution\<close>





lemma split_not_Nil [simp]: "split sep s \<noteq> []"
  by (induction s) (auto simp: Let_def)

lemma split_no_separator: "sep \<notin> set s \<Longrightarrow> split sep s = [s]"
  by (induction s) (auto simp: Let_def)

lemma split_at_first_separator:
  "sep \<notin> set a \<Longrightarrow> split sep (a @ sep # b) = a # split sep b"
  by (induction a) (auto simp: Let_def)

lemma length_split: "length (split sep s) = Suc (count_list s sep)"
  by (induction s) (auto simp: Let_def)

text \<open>
  C5, as amended. \<open>Schema.resolveRef\<close> on every input: a name without separator
  resolves against the schema's own namespace; \<open>alias:local\<close> resolves through
  \<open>aliasedSchemas\<close>, except that an empty alias counts as no alias and resolves against
  the schema's own namespace; more than one separator gives \<open>null\<close>. The result is
  \<open>null\<close> as well when the local name is empty, when the alias has no declaration, and
  when the namespace found is the empty string.
\<close>

theorem resolveRef_cases:
  "(CHR '':'' \<notin> set name \<longrightarrow>
      Schema_resolveRef schema name =
        (if name = [] \<or> schema_namespace schema = [] then None
         else Some \<lparr>ref_namespace = schema_namespace schema, ref_name = name\<rparr>))
   \<and> (CHR '':'' \<notin> set alias \<and> CHR '':'' \<notin> set local \<longrightarrow>
      Schema_resolveRef schema (alias @ '':'' @ local) =
        (if local = [] then None
         else if alias = []
           then (if schema_namespace schema = [] then None
                 else Some \<lparr>ref_namespace = schema_namespace schema, ref_name = local\<rparr>)
         else (case Map_get (aliasedSchemas schema) alias of
                 None \<Rightarrow> None
               | Some uri \<Rightarrow>
                   if uri = [] then None else Some \<lparr>ref_namespace = uri, ref_name = local\<rparr>)))
   \<and> (1 < count_list node CHR '':'' \<longrightarrow> Schema_resolveRef schema node = None)"
proof (intro conjI impI)
  assume "CHR '':'' \<notin> set name"
  then have "split CHR '':'' name = [name]"
    by (rule split_no_separator)
  then show "Schema_resolveRef schema name =
        (if name = [] \<or> schema_namespace schema = [] then None
         else Some \<lparr>ref_namespace = schema_namespace schema, ref_name = name\<rparr>)"
    by (simp add: Schema_resolveRef_def at_end_def)
next
  assume "CHR '':'' \<notin> set alias \<and> CHR '':'' \<notin> set local"
  then have "split CHR '':'' (alias @ '':'' @ local) = [alias, local]"
    by (simp add: split_at_first_separator split_no_separator)
  then show "Schema_resolveRef schema (alias @ '':'' @ local) =
        (if local = [] then None
         else if alias = []
           then (if schema_namespace schema = [] then None
                 else Some \<lparr>ref_namespace = schema_namespace schema, ref_name = local\<rparr>)
         else (case Map_get (aliasedSchemas schema) alias of
                 None \<Rightarrow> None
               | Some uri \<Rightarrow>
                   if uri = [] then None else Some \<lparr>ref_namespace = uri, ref_name = local\<rparr>))"
    by (simp add: Schema_resolveRef_def at_end_def split: option.splits)
next
  assume "1 < count_list node CHR '':''"
  then have "2 < length (split CHR '':'' node)"
    by (simp add: length_split)
  then show "Schema_resolveRef schema node = None"
    by (simp add: Schema_resolveRef_def Let_def)
qed

theorem resolveRef_cases_witness:
  "CHR '':'' \<notin> set ''item'' \<and> CHR '':'' \<notin> set ''xs'' \<and> CHR '':'' \<notin> set ''int''
   \<and> 1 < count_list ''a:b:c'' CHR '':''
   \<and> Schema_resolveRef
         \<lparr>schema_namespace = ''urn:own'', aliasedSchemas = [(''xs'', ''urn:xs'')],
          schema_elements = [], schema_types = []\<rparr> ''item''
       = Some \<lparr>ref_namespace = ''urn:own'', ref_name = ''item''\<rparr>
   \<and> Schema_resolveRef
         \<lparr>schema_namespace = ''urn:own'', aliasedSchemas = [(''xs'', ''urn:xs'')],
          schema_elements = [], schema_types = []\<rparr> (''xs'' @ '':'' @ ''int'')
       = Some \<lparr>ref_namespace = ''urn:xs'', ref_name = ''int''\<rparr>
   \<and> Schema_resolveRef
         \<lparr>schema_namespace = ''urn:own'', aliasedSchemas = [(''xs'', ''urn:xs'')],
          schema_elements = [], schema_types = []\<rparr> ''a:b:c'' = None"
  using resolveRef_cases
    [of "''item''"
        "\<lparr>schema_namespace = ''urn:own'', aliasedSchemas = [(''xs'', ''urn:xs'')],
          schema_elements = [], schema_types = []\<rparr>"
        "''xs''" "''int''" "''a:b:c''"]
  by simp

text \<open>
  Two inputs where the result is not what C5 says: an empty alias, declared nowhere,
  resolves against the schema's own namespace; and in a schema whose own namespace is
  the empty string a plain name gives \<open>null\<close>.
\<close>

theorem resolveRef_counterexample:
  "Map_get (aliasedSchemas
       \<lparr>schema_namespace = ''urn:own'', aliasedSchemas = [(''xs'', ''urn:xs'')],
        schema_elements = [], schema_types = []\<rparr>) [] = None
   \<and> Schema_resolveRef
         \<lparr>schema_namespace = ''urn:own'', aliasedSchemas = [(''xs'', ''urn:xs'')],
          schema_elements = [], schema_types = []\<rparr> '':item''
       = Some \<lparr>ref_namespace = ''urn:own'', ref_name = ''item''\<rparr>
   \<and> Schema_resolveRef
         \<lparr>schema_namespace = [], aliasedSchemas = [(''xs'', ''urn:xs'')],
          schema_elements = [], schema_types = []\<rparr> ''item'' = None"
  by (simp add: Schema_resolveRef_def at_end_def Let_def)


section \<open>Properties of elements\<close>

lemma Element_toTSField_eq:
  "Element_toTSField lib ctx omitDocs e =
     (case el_annotations e of None \<Rightarrow> [] | Some ann \<Rightarrow> if omitDocs then [] else docBlock ann)
     @ el_name e @ (if jsnum_eq (el_minOccurs e) (Fin 0) then ''?'' else []) @ '': ''
     @ (if jsnum_gt (el_maxOccurs e) (Fin 1)
        then ''Many<'' @ resolvedTypeExpr lib ctx e @ ''>''
        else resolvedTypeExpr lib ctx e)
     @ '';''"
  by (cases e) (simp add: resolvedTypeExpr_def split: option.splits)

text \<open>
  C6. The field of an element is its doc block, its name, the optional mark, and its
  type: \<open>Many<T>\<close> around the resolved type expression \<open>T\<close> when \<open>maxOccurs > 1\<close>,
  and \<open>T\<close> itself otherwise. The two differ, so the wrapper is there if and only if
  \<open>maxOccurs > 1\<close>; the default \<open>Infinity\<close> is above 1.
\<close>

theorem toTSField_Many_iff:
  "Element_toTSField lib ctx omitDocs e =
     (case el_annotations e of None \<Rightarrow> [] | Some ann \<Rightarrow> if omitDocs then [] else docBlock ann)
     @ el_name e @ (if jsnum_eq (el_minOccurs e) (Fin 0) then ''?'' else []) @ '': ''
     @ (if jsnum_gt (el_maxOccurs e) (Fin 1)
        then ''Many<'' @ resolvedTypeExpr lib ctx e @ ''>''
        else resolvedTypeExpr lib ctx e)
     @ '';''
   \<and> ''Many<'' @ resolvedTypeExpr lib ctx e @ ''>'' \<noteq> resolvedTypeExpr lib ctx e
   \<and> jsnum_gt Infinity (Fin 1)"
proof -
  have "length (''Many<'' @ resolvedTypeExpr lib ctx e @ ''>'') \<noteq> length (resolvedTypeExpr lib ctx e)"
    by simp
  then have "''Many<'' @ resolvedTypeExpr lib ctx e @ ''>'' \<noteq> resolvedTypeExpr lib ctx e"
    by metis
  then show ?thesis
    using Element_toTSField_eq [of lib ctx omitDocs e] by simp
qed

lemma Element_fromXsd_maxOccurs:
  assumes "Element_fromXsd lib ctx schema (XsElement shape minOccurs maxOccurs annotation) = Inr e"
  shows "el_maxOccurs e =
           (case maxOccurs of
              None \<Rightarrow> Infinity
            | Some v \<Rightarrow> if attrval_truthy v \<and> v \<noteq> Str ''unbounded'' then Number lib v else Infinity)"
  using assms by (auto split: sum.splits prod.splits)

text \<open>
  C8. An element node whose \<open>@_maxOccurs\<close> is the number 0 loads exactly as the node
  without \<open>@_maxOccurs\<close>: when it loads, \<open>maxOccurs\<close> is \<open>Infinity\<close> and the field,
  rendered in any context, has the \<open>Many\<close> wrapper.
\<close>

theorem fromXsd_maxOccurs_zero:
  "Element_fromXsd lib ctx schema (XsElement shape minOccurs (Some (Num (Fin 0))) annotation)
     = Element_fromXsd lib ctx schema (XsElement shape minOccurs None annotation)
   \<and> (Element_fromXsd lib ctx schema (XsElement shape minOccurs (Some (Num (Fin 0))) annotation) = Inr e
      \<longrightarrow> el_maxOccurs e = Infinity
          \<and> Element_toTSField lib ctx' omitDocs e =
              (case el_annotations e of None \<Rightarrow> [] | Some ann \<Rightarrow> if omitDocs then [] else docBlock ann)
              @ el_name e @ (if jsnum_eq (el_minOccurs e) (Fin 0) then ''?'' else [])
              @ '': Many<'' @ resolvedTypeExpr lib ctx' e @ ''>;'')"
proof -
  have same: "Element_fromXsd lib ctx schema (XsElement shape minOccurs (Some (Num (Fin 0))) annotation)
     = Element_fromXsd lib ctx schema (XsElement shape minOccurs None annotation)"
    by (simp split: sum.splits prod.splits)
  have "el_maxOccurs e = Infinity"
    if "Element_fromXsd lib ctx schema (XsElement shape minOccurs (Some (Num (Fin 0))) annotation) = Inr e"
    using Element_fromXsd_maxOccurs [OF that] by simp
  then show ?thesis
    using same by (simp add: Element_toTSField_eq)
qed

theorem fromXsd_maxOccurs_zero_witness:
  "Element_fromXsd \<lparr>toPascalCase = (\<lambda>s. s), Number_of_string = (\<lambda>s. NaN), String_of_number = (\<lambda>n. [])\<rparr>
      Context_new (Schema_new ''urn:a'') (XsElement (ByType ''item'' ''Code'') None (Some (Num (Fin 0))) None)
     = Inr (Element ''item'' (Ref \<lparr>ref_namespace = ''urn:a'', ref_name = ''Code''\<rparr>) (Fin 0) Infinity None)
   \<and> Element_toTSField \<lparr>toPascalCase = (\<lambda>s. s), Number_of_string = (\<lambda>s. NaN), String_of_number = (\<lambda>n. [])\<rparr>
        Context_new False
        (Element ''item'' (Ref \<lparr>ref_namespace = ''urn:a'', ref_name = ''Code''\<rparr>) (Fin 0) Infinity None)
     = ''item?: Many<unknown>;''"
proof -
  have load: "Element_fromXsd \<lparr>toPascalCase = (\<lambda>s. s), Number_of_string = (\<lambda>s. NaN), String_of_number = (\<lambda>n. [])\<rparr>
      Context_new (Schema_new ''urn:a'') (XsElement (ByType ''item'' ''Code'') None (Some (Num (Fin 0))) None)
     = Inr (Element ''item'' (Ref \<lparr>ref_namespace = ''urn:a'', ref_name = ''Code''\<rparr>) (Fin 0) Infinity None)"
    by code_simp
  have expr: "resolvedTypeExpr \<lparr>toPascalCase = (\<lambda>s. s), Number_of_string = (\<lambda>s. NaN), String_of_number = (\<lambda>n. [])\<rparr>
        Context_new (Element ''item'' (Ref \<lparr>ref_namespace = ''urn:a'', ref_name = ''Code''\<rparr>) (Fin 0) Infinity None)
      = ''unknown''"
    by code_simp
  show ?thesis
    using fromXsd_maxOccurs_zero
      [of "\<lparr>toPascalCase = (\<lambda>s. s), Number_of_string = (\<lambda>s. NaN), String_of_number = (\<lambda>n. [])\<rparr>"
          Context_new "Schema_new ''urn:a''" "ByType ''item'' ''Code''" None None
          "Element ''item'' (Ref \<lparr>ref_namespace = ''urn:a'', ref_name = ''Code''\<rparr>) (Fin 0) Infinity None"
          Context_new False]
      load expr
    by simp
qed

section \<open>Properties of literals and simple types\<close>

lemma join_Cons: "xs \<noteq> [] \<Longrightarrow> join sep (x # xs) = x @ sep @ join sep xs"
  by (cases xs) simp_all

lemma join_append:
  "xs \<noteq> [] \<Longrightarrow> ys \<noteq> [] \<Longrightarrow> join sep (xs @ ys) = join sep xs @ sep @ join sep ys"
  by (induction sep xs rule: join.induct) (simp_all add: join_Cons)

lemma fractionTail_iff: "fractionTail cs \<longleftrightarrow> cs \<noteq> [] \<and> list_all isDigit cs"
  by (induction cs rule: fractionTail.induct) auto

lemma isDigit_dot [simp]: "\<not> isDigit CHR ''.''"
  by (simp add: isDigit_def)

lemma digitsThen_iff:
  "digitsThen cs \<longleftrightarrow>
     list_all isDigit cs
     \<or> (\<exists>ds fs. list_all isDigit ds \<and> fs \<noteq> [] \<and> list_all isDigit fs \<and> cs = ds @ ''.'' @ fs)"
proof (induction cs)
  case Nil
  then show ?case by simp
next
  case (Cons c cs)
  show ?case
  proof (cases "isDigit c")
    case True
    have "(\<exists>ds fs. list_all isDigit ds \<and> fs \<noteq> [] \<and> list_all isDigit fs \<and> c # cs = ds @ ''.'' @ fs)
          \<longleftrightarrow> (\<exists>ds fs. list_all isDigit ds \<and> fs \<noteq> [] \<and> list_all isDigit fs \<and> cs = ds @ ''.'' @ fs)"
      (is "?L \<longleftrightarrow> ?R")
    proof
      assume ?L
      then obtain ds fs where h: "list_all isDigit ds" "fs \<noteq> []" "list_all isDigit fs"
        "c # cs = ds @ ''.'' @ fs" by blast
      with True obtain ds' where "ds = c # ds'"
        by (cases ds) auto
      with h show ?R by auto
    next
      assume ?R
      then obtain ds fs where h: "list_all isDigit ds" "fs \<noteq> []" "list_all isDigit fs"
        "cs = ds @ ''.'' @ fs" by blast
      with True have "list_all isDigit (c # ds)" "c # cs = (c # ds) @ ''.'' @ fs" by auto
      with h show ?L by blast
    qed
    with True Cons show ?thesis by simp
  next
    case False
    have "(\<exists>ds fs. list_all isDigit ds \<and> fs \<noteq> [] \<and> list_all isDigit fs \<and> c # cs = ds @ ''.'' @ fs)
          \<longleftrightarrow> c = CHR ''.'' \<and> cs \<noteq> [] \<and> list_all isDigit cs"
      (is "?L \<longleftrightarrow> ?R")
    proof
      assume ?L
      then obtain ds fs where h: "list_all isDigit ds" "fs \<noteq> []" "list_all isDigit fs"
        "c # cs = ds @ ''.'' @ fs" by blast
      with False have "ds = []"
        by (cases ds) auto
      with h show ?R by auto
    next
      assume ?R
      then have "list_all isDigit []" "cs \<noteq> []" "list_all isDigit cs" "c # cs = [] @ ''.'' @ cs"
        by auto
      then show ?L by blast
    qed
    with False show ?thesis by (simp add: fractionTail_iff)
  qed
qed

lemma matchesNumeric_iff:
  "matchesNumeric v \<longleftrightarrow>
     (\<exists>ds. ds \<noteq> [] \<and> list_all isDigit ds
        \<and> (v = ds \<or> (\<exists>fs. fs \<noteq> [] \<and> list_all isDigit fs \<and> v = ds @ ''.'' @ fs)))"
proof (cases v)
  case Nil
  then show ?thesis by auto
next
  case (Cons c cs)
  show ?thesis
  proof
    assume "matchesNumeric v"
    with Cons have c: "isDigit c" and "digitsThen cs" by auto
    then consider "list_all isDigit cs"
      | ds fs where "list_all isDigit ds" "fs \<noteq> []" "list_all isDigit fs" "cs = ds @ ''.'' @ fs"
      by (auto simp: digitsThen_iff)
    then show "\<exists>ds. ds \<noteq> [] \<and> list_all isDigit ds
        \<and> (v = ds \<or> (\<exists>fs. fs \<noteq> [] \<and> list_all isDigit fs \<and> v = ds @ ''.'' @ fs))"
    proof cases
      case 1
      with c Cons have "v \<noteq> [] \<and> list_all isDigit v" by simp
      then show ?thesis by blast
    next
      case 2
      with c Cons have "c # ds \<noteq> [] \<and> list_all isDigit (c # ds) \<and> v = (c # ds) @ ''.'' @ fs"
        by simp
      with 2 show ?thesis by blast
    qed
  next
    assume "\<exists>ds. ds \<noteq> [] \<and> list_all isDigit ds
        \<and> (v = ds \<or> (\<exists>fs. fs \<noteq> [] \<and> list_all isDigit fs \<and> v = ds @ ''.'' @ fs))"
    then obtain ds where ds: "ds \<noteq> []" "list_all isDigit ds"
      and v: "v = ds \<or> (\<exists>fs. fs \<noteq> [] \<and> list_all isDigit fs \<and> v = ds @ ''.'' @ fs)"
      by blast
    from ds obtain d ds' where d: "ds = d # ds'" "isDigit d" "list_all isDigit ds'"
      by (cases ds) auto
    from v show "matchesNumeric v"
    proof
      assume "v = ds"
      with d show ?thesis by (simp add: digitsThen_iff)
    next
      assume "\<exists>fs. fs \<noteq> [] \<and> list_all isDigit fs \<and> v = ds @ ''.'' @ fs"
      then obtain fs where "fs \<noteq> []" "list_all isDigit fs" "v = ds @ ''.'' @ fs" by blast
      with d have "isDigit d" "digitsThen (ds' @ ''.'' @ fs)" "v = d # ds' @ ''.'' @ fs"
        by (auto simp: digitsThen_iff)
      then show ?thesis by simp
    qed
  qed
qed


lemma JSON_stringify_not_Nil [simp]: "JSON_stringify v \<noteq> []"
  by (simp add: JSON_stringify_def)

lemma foldl_separated:
  assumes step: "\<And>acc x. f acc x = acc @ (if acc = [] then [] else sep) @ g x"
    and nonempty: "\<And>x. g x \<noteq> []"
  shows "foldl f acc xs =
           (if xs = [] then acc else acc @ (if acc = [] then [] else sep) @ join sep (map g xs))"
proof (induction xs arbitrary: acc)
  case Nil
  then show ?case by simp
next
  case (Cons x xs)
  have ne: "f acc x \<noteq> []"
    using nonempty [of x] by (simp add: step)
  have "foldl f acc (x # xs) = foldl f (f acc x) xs"
    by simp
  also have "\<dots> = (if xs = [] then f acc x
                    else f acc x @ (if f acc x = [] then [] else sep) @ join sep (map g xs))"
    by (rule Cons.IH)
  also have "\<dots> = acc @ (if acc = [] then [] else sep) @ join sep (map g (x # xs))"
    using ne by (cases "xs = []") (simp_all add: step join_Cons)
  finally show ?case by simp
qed

lemma join_concat:
  "list_all (\<lambda>xs. xs \<noteq> []) xss \<Longrightarrow> join sep (map (join sep) xss) = join sep (concat xss)"
proof (induction xss)
  case Nil
  then show ?case by simp
next
  case (Cons xs xss)
  show ?case
  proof (cases "xss = []")
    case True
    then show ?thesis by simp
  next
    case False
    with Cons.prems have "concat xss \<noteq> []"
      by (cases xss) auto
    with Cons False show ?thesis
      by (simp add: join_Cons join_append)
  qed
qed

lemma join_literalsOf:
  "join '' | '' (literalsOf v) = JSON_stringify v @ (if matchesNumeric v then '' | '' @ v else [])"
  by (simp add: literalsOf_def)

lemma SimpleType_tsType_enumeration:
  assumes "st_enumeration t = Some enumeration" and "enumeration \<noteq> []"
  shows "SimpleType_tsType lib ctx t
           = join '' | '' (concat (map (\<lambda>x. literalsOf (ev_value x)) enumeration))"
proof -
  have "foldl
     (\<lambda>tsType variant.
        (let tsType = tsType @ (if tsType = [] then [] else '' | '') @ JSON_stringify (ev_value variant)
         in if matchesNumeric (ev_value variant) then tsType @ '' | '' @ ev_value variant else tsType))
     [] enumeration
    = join '' | '' (map (\<lambda>x. join '' | '' (literalsOf (ev_value x))) enumeration)"
    using assms(2)
    by (subst foldl_separated [where sep = "'' | ''"
          and g = "\<lambda>x. join '' | '' (literalsOf (ev_value x))"])
       (simp_all add: Let_def join_literalsOf)
  also have "\<dots> = join '' | '' (map (join '' | '') (map (\<lambda>x. literalsOf (ev_value x)) enumeration))"
    by (simp add: comp_def)
  also have "\<dots> = join '' | '' (concat (map (\<lambda>x. literalsOf (ev_value x)) enumeration))"
    by (rule join_concat) (simp add: list_all_iff literalsOf_def)
  finally show ?thesis
    using assms by (simp add: SimpleType_tsType_def)
qed

lemma SimpleType_docs_type [simp]: "SimpleType_docs lib (t\<lparr>st_type := r\<rparr>) = SimpleType_docs lib t"
  by (simp add: SimpleType_docs_def SimpleType_valueDocs_def Let_def)

lemma SimpleType_toTSTypeName_type [simp]:
  "SimpleType_toTSTypeName lib ctx (t\<lparr>st_type := r\<rparr>) = SimpleType_toTSTypeName lib ctx t"
  by (simp add: SimpleType_toTSTypeName_def)

text \<open>
  C4. A simple type with a non-empty enumeration renders as the union of the literals
  of its values, in order: for each value its JSON-quoted string, followed by the bare
  number when the value is syntactically numeric. The restriction base plays no part.
  The values \<open>"1"\<close> and \<open>"2"\<close> give \<^verbatim>\<open>"1" | 1 | "2" | 2\<close>.
\<close>

theorem enumeration_union:
  assumes "st_enumeration t = Some enumeration" and "enumeration \<noteq> []"
  shows "SimpleType_toTSType lib ctx t =
           (if SimpleType_docs lib t \<noteq> []
            then ''/**\<newline>'' @ SimpleType_docs lib t @ ''\<newline> */\<newline>'' else [])
           @ ''export type '' @ SimpleType_toTSTypeName lib ctx t @ '' = ''
           @ join '' | '' (concat (map (\<lambda>x. literalsOf (ev_value x)) enumeration)) @ '';''
         \<and> SimpleType_toTSType lib ctx (t\<lparr>st_type := r\<rparr>) = SimpleType_toTSType lib ctx t
         \<and> (map ev_value enumeration = [''1'', ''2''] \<longrightarrow>
              SimpleType_tsType lib ctx t
                = [DQ] @ ''1'' @ [DQ] @ '' | 1 | '' @ [DQ] @ ''2'' @ [DQ] @ '' | 2'')"
proof -
  have union: "SimpleType_tsType lib ctx t'
       = join '' | '' (concat (map (\<lambda>x. literalsOf (ev_value x)) enumeration))"
    if "st_enumeration t' = Some enumeration" for t'
    using that assms(2) by (rule SimpleType_tsType_enumeration)
  have one: "literalsOf ''1'' = [[DQ] @ ''1'' @ [DQ], ''1'']"
    and two: "literalsOf ''2'' = [[DQ] @ ''2'' @ [DQ], ''2'']"
    by (simp_all add: literalsOf_def JSON_stringify_def JSON_escape_def isDigit_def)
  have "concat (map (\<lambda>x. literalsOf (ev_value x)) enumeration)
          = concat (map literalsOf (map ev_value enumeration))"
    by (simp add: comp_def)
  then have example: "join '' | '' (concat (map (\<lambda>x. literalsOf (ev_value x)) enumeration))
      = [DQ] @ ''1'' @ [DQ] @ '' | 1 | '' @ [DQ] @ ''2'' @ [DQ] @ '' | 2''"
    if "map ev_value enumeration = [''1'', ''2'']"
    using that by (simp add: one two)
  show ?thesis
    using assms(1) example by (simp add: SimpleType_toTSType_def union)
qed

theorem enumeration_union_witness:
  "SimpleType_toTSType
     \<lparr>toPascalCase = (\<lambda>s. s), Number_of_string = (\<lambda>s. NaN), String_of_number = (\<lambda>n. [])\<rparr>
     Context_new
     \<lparr>st_name = ''Digit'',
      st_type = \<lparr>ref_namespace = ''http://www.w3.org/2001/XMLSchema'', ref_name = ''string''\<rparr>,
      st_annotations = None, st_minInclusive = None, st_totalDigits = None,
      st_fractionDigits = None, st_minLength = None, st_maxLength = None, st_pattern = None,
      st_enumeration = Some [\<lparr>ev_value = ''1'', ev_annotations = None\<rparr>,
                             \<lparr>ev_value = ''2'', ev_annotations = None\<rparr>]\<rparr>
   = ''export type Digit = '' @ [DQ] @ ''1'' @ [DQ] @ '' | 1 | '' @ [DQ] @ ''2'' @ [DQ] @ '' | 2;''"
  (is "SimpleType_toTSType ?lib ?ctx ?t = ?text")
proof -
  have "SimpleType_toTSType ?lib ?ctx ?t =
           (if SimpleType_docs ?lib ?t \<noteq> []
            then ''/**\<newline>'' @ SimpleType_docs ?lib ?t @ ''\<newline> */\<newline>'' else [])
           @ ''export type '' @ SimpleType_toTSTypeName ?lib ?ctx ?t @ '' = ''
           @ join '' | '' (concat (map (\<lambda>x. literalsOf (ev_value x))
               [\<lparr>ev_value = ''1'', ev_annotations = None\<rparr>,
                \<lparr>ev_value = ''2'', ev_annotations = None\<rparr>])) @ '';''"
    using enumeration_union [of ?t "[\<lparr>ev_value = ''1'', ev_annotations = None\<rparr>,
                \<lparr>ev_value = ''2'', ev_annotations = None\<rparr>]" ?lib ?ctx]
    by simp
  also have "\<dots> = ?text"
    by code_simp
  finally show ?thesis .
qed



lemma Attribute_toTSField_fixed:
  assumes "attr_fixed a = Some v" and "v \<noteq> []"
  shows "Attribute_toTSField lib ctx a =
           (case attr_annotations a of None \<Rightarrow> [] | Some ann \<Rightarrow> docBlock ann)
           @ [DQ] @ attributePrefix ctx @ attr_name a @ [DQ]
           @ (if attr_required a then [] else ''?'') @ '': ''
           @ join '' | '' (literalsOf v) @ '';''"
  using assms by (simp add: Attribute_toTSField_def Let_def join_literalsOf)

lemma Attribute_toTSField_fixed_empty:
  assumes "attr_fixed a = Some []"
  shows "Attribute_toTSField lib ctx a = Attribute_toTSField lib ctx (a\<lparr>attr_fixed := None\<rparr>)"
  using assms by (simp add: Attribute_toTSField_def Let_def)

text \<open>
  C9. A value matches \<^verbatim>\<open>/^\d+(\.\d+)?$/\<close> if and only if it is a non-empty run of
  digits, or such a run, a point and another non-empty run of digits. An enumeration
  value and a non-empty fixed value of an attribute get the bare numeric literal after
  the quoted one exactly when they match; \<open>-1\<close>, \<open>1e3\<close> and \<open>.5\<close> do not match. An
  attribute whose fixed value is the empty string renders as the attribute without a
  fixed value.
\<close>

theorem numeric_literal_iff:
  "(matchesNumeric v \<longleftrightarrow>
      (\<exists>ds. ds \<noteq> [] \<and> list_all isDigit ds
         \<and> (v = ds \<or> (\<exists>fs. fs \<noteq> [] \<and> list_all isDigit fs \<and> v = ds @ ''.'' @ fs))))
   \<and> (st_enumeration t = Some enumeration \<and> enumeration \<noteq> [] \<longrightarrow>
        SimpleType_tsType lib ctx t
          = join '' | ''
              (concat (map (\<lambda>x. JSON_stringify (ev_value x)
                                 # (if matchesNumeric (ev_value x) then [ev_value x] else []))
                         enumeration)))
   \<and> (attr_fixed a = Some v \<and> v \<noteq> [] \<longrightarrow>
        Attribute_toTSField lib ctx a =
          (case attr_annotations a of None \<Rightarrow> [] | Some ann \<Rightarrow> docBlock ann)
          @ [DQ] @ attributePrefix ctx @ attr_name a @ [DQ]
          @ (if attr_required a then [] else ''?'') @ '': ''
          @ JSON_stringify v @ (if matchesNumeric v then '' | '' @ v else []) @ '';'')
   \<and> \<not> matchesNumeric ''-1'' \<and> \<not> matchesNumeric ''1e3'' \<and> \<not> matchesNumeric ''.5''
   \<and> (attr_fixed a' = Some [] \<longrightarrow>
        Attribute_toTSField lib ctx a' = Attribute_toTSField lib ctx (a'\<lparr>attr_fixed := None\<rparr>))"
proof -
  have enum: "SimpleType_tsType lib ctx t
          = join '' | ''
              (concat (map (\<lambda>x. JSON_stringify (ev_value x)
                                 # (if matchesNumeric (ev_value x) then [ev_value x] else []))
                         enumeration))"
    if "st_enumeration t = Some enumeration" "enumeration \<noteq> []"
    using SimpleType_tsType_enumeration [OF that] by (simp add: literalsOf_def)
  have fixed: "Attribute_toTSField lib ctx a =
          (case attr_annotations a of None \<Rightarrow> [] | Some ann \<Rightarrow> docBlock ann)
          @ [DQ] @ attributePrefix ctx @ attr_name a @ [DQ]
          @ (if attr_required a then [] else ''?'') @ '': ''
          @ JSON_stringify v @ (if matchesNumeric v then '' | '' @ v else []) @ '';''"
    if "attr_fixed a = Some v" "v \<noteq> []"
    using Attribute_toTSField_fixed [OF that] by (simp add: join_literalsOf)
  have examples: "\<not> matchesNumeric ''-1''" "\<not> matchesNumeric ''1e3''" "\<not> matchesNumeric ''.5''"
    by (simp_all add: isDigit_def)
  show ?thesis
    using matchesNumeric_iff [of v] enum fixed examples Attribute_toTSField_fixed_empty [of a']
    by blast
qed

theorem numeric_literal_iff_witness:
  "matchesNumeric ''12.5''
   \<and> Attribute_toTSField
        \<lparr>toPascalCase = (\<lambda>s. s), Number_of_string = (\<lambda>s. NaN), String_of_number = (\<lambda>n. [])\<rparr>
        Context_new
        \<lparr>attr_name = ''version'', attr_type = None, attr_required = True,
         attr_fixed = Some ''12.5'', attr_annotations = None\<rparr>
      = [DQ] @ ''@_version'' @ [DQ] @ '': '' @ [DQ] @ ''12.5'' @ [DQ] @ '' | 12.5;''
   \<and> Attribute_toTSField
        \<lparr>toPascalCase = (\<lambda>s. s), Number_of_string = (\<lambda>s. NaN), String_of_number = (\<lambda>n. [])\<rparr>
        Context_new
        \<lparr>attr_name = ''version'', attr_type = None, attr_required = True,
         attr_fixed = Some [], attr_annotations = None\<rparr>
      = [DQ] @ ''@_version'' @ [DQ] @ '': string | number;''
   \<and> SimpleType_tsType
        \<lparr>toPascalCase = (\<lambda>s. s), Number_of_string = (\<lambda>s. NaN), String_of_number = (\<lambda>n. [])\<rparr>
        Context_new
        \<lparr>st_name = ''Delta'',
         st_type = \<lparr>ref_namespace = ''http://www.w3.org/2001/XMLSchema'', ref_name = ''string''\<rparr>,
         st_annotations = None, st_minInclusive = None, st_totalDigits = None,
         st_fractionDigits = None, st_minLength = None, st_maxLength = None, st_pattern = None,
         st_enumeration = Some [\<lparr>ev_value = ''-1'', ev_annotations = None\<rparr>,
                                \<lparr>ev_value = ''7'', ev_annotations = None\<rparr>]\<rparr>
      = [DQ] @ ''-1'' @ [DQ] @ '' | '' @ [DQ] @ ''7'' @ [DQ] @ '' | 7''"
  (is "_ \<and> Attribute_toTSField ?lib ?ctx ?a = _ \<and> Attribute_toTSField ?lib ?ctx ?a' = _
         \<and> SimpleType_tsType ?lib ?ctx ?t = _")
proof -
  note inst = numeric_literal_iff [of "''12.5''" ?t
      "[\<lparr>ev_value = ''-1'', ev_annotations = None\<rparr>, \<lparr>ev_value = ''7'', ev_annotations = None\<rparr>]"
      ?lib ?ctx ?a ?a']
  have num: "matchesNumeric ''12.5''"
    by (simp add: isDigit_def)
  have "Attribute_toTSField ?lib ?ctx ?a =
          (case attr_annotations ?a of None \<Rightarrow> [] | Some ann \<Rightarrow> docBlock ann)
          @ [DQ] @ attributePrefix ?ctx @ attr_name ?a @ [DQ]
          @ (if attr_required ?a then [] else ''?'') @ '': ''
          @ JSON_stringify ''12.5'' @ (if matchesNumeric ''12.5'' then '' | '' @ ''12.5'' else []) @ '';''"
    using inst by simp
  also have "\<dots> = [DQ] @ ''@_version'' @ [DQ] @ '': '' @ [DQ] @ ''12.5'' @ [DQ] @ '' | 12.5;''"
    by code_simp
  finally have fixed: "Attribute_toTSField ?lib ?ctx ?a
      = [DQ] @ ''@_version'' @ [DQ] @ '': '' @ [DQ] @ ''12.5'' @ [DQ] @ '' | 12.5;''" .
  have "Attribute_toTSField ?lib ?ctx ?a' = Attribute_toTSField ?lib ?ctx (?a'\<lparr>attr_fixed := None\<rparr>)"
    using inst by simp
  also have "\<dots> = [DQ] @ ''@_version'' @ [DQ] @ '': string | number;''"
    by code_simp
  finally have empty: "Attribute_toTSField ?lib ?ctx ?a'
      = [DQ] @ ''@_version'' @ [DQ] @ '': string | number;''" .
  have "SimpleType_tsType ?lib ?ctx ?t
          = join '' | ''
              (concat (map (\<lambda>x. JSON_stringify (ev_value x)
                                 # (if matchesNumeric (ev_value x) then [ev_value x] else []))
                         [\<lparr>ev_value = ''-1'', ev_annotations = None\<rparr>,
                          \<lparr>ev_value = ''7'', ev_annotations = None\<rparr>]))"
    using inst by simp
  also have "\<dots> = [DQ] @ ''-1'' @ [DQ] @ '' | '' @ [DQ] @ ''7'' @ [DQ] @ '' | 7''"
    by code_simp
  finally have union: "SimpleType_tsType ?lib ?ctx ?t
      = [DQ] @ ''-1'' @ [DQ] @ '' | '' @ [DQ] @ ''7'' @ [DQ] @ '' | 7''" .
  from num fixed empty union show ?thesis
    by (intro conjI)
qed



text \<open>What one facet adds to a doc text that is not empty.\<close>

definition facetText :: "string \<Rightarrow> string option \<Rightarrow> string" where
  "facetText label facet = (case facet of None \<Rightarrow> [] | Some text' \<Rightarrow> ''\<newline>'' @ label @ text')"

lemma addFacet_after:
  "addFacet (pre @ ''\<newline> *'' @ done') label facet = pre @ ''\<newline> *'' @ (done' @ facetText label facet)"
  by (simp add: addFacet_def facetText_def split: option.splits)

lemma facet_block:
  "addFacet (addFacet (addFacet (addFacet (addFacet (addFacet (pre @ ''\<newline> *'') l1 f1) l2 f2) l3 f3) l4 f4) l5 f5) l6 f6
   = pre @ ''\<newline> *'' @ facetText l1 f1 @ facetText l2 f2 @ facetText l3 f3
       @ facetText l4 f4 @ facetText l5 f5 @ facetText l6 f6"
proof -
  have "addFacet (pre @ ''\<newline> *'') l1 f1 = pre @ ''\<newline> *'' @ ([] @ facetText l1 f1)"
    using addFacet_after [of pre "[]"] by simp
  then show ?thesis
    by (simp only: addFacet_after append_assoc append_Nil)
qed

lemma facetLines_text:
  "concat (map (\<lambda>line. ''\<newline>'' @ line) (facetLines lib t))
   = facetText '' * Min: '' (map_option (String_of_number lib) (st_minInclusive t))
     @ facetText '' * Total digits: '' (map_option (String_of_number lib) (st_totalDigits t))
     @ facetText '' * Fraction digits: '' (map_option (String_of_number lib) (st_fractionDigits t))
     @ facetText '' * Min length: '' (map_option (String_of_number lib) (st_minLength t))
     @ facetText '' * Max length: '' (map_option (String_of_number lib) (st_maxLength t))
     @ facetText '' * Pattern: '' (map_option (\<lambda>p. ''/'' @ escapeSlashes p @ ''/'') (st_pattern t))"
  by (simp add: facetLines_def facetText_def List.map_filter_simps split: option.splits)

lemma SimpleType_docs_facets:
  assumes "st_minInclusive t \<noteq> None \<or> st_totalDigits t \<noteq> None \<or> st_fractionDigits t \<noteq> None
            \<or> st_minLength t \<noteq> None \<or> st_maxLength t \<noteq> None \<or> st_pattern t \<noteq> None"
  shows "SimpleType_docs lib t
           = SimpleType_valueDocs t @ ''\<newline> *''
             @ concat (map (\<lambda>line. ''\<newline>'' @ line) (facetLines lib t))"
proof -
  have "SimpleType_docs lib t =
          addFacet (addFacet (addFacet (addFacet (addFacet (addFacet (SimpleType_valueDocs t @ ''\<newline> *'')
            '' * Min: '' (map_option (String_of_number lib) (st_minInclusive t)))
            '' * Total digits: '' (map_option (String_of_number lib) (st_totalDigits t)))
            '' * Fraction digits: '' (map_option (String_of_number lib) (st_fractionDigits t)))
            '' * Min length: '' (map_option (String_of_number lib) (st_minLength t)))
            '' * Max length: '' (map_option (String_of_number lib) (st_maxLength t)))
            '' * Pattern: '' (map_option (\<lambda>p. ''/'' @ escapeSlashes p @ ''/'') (st_pattern t))"
    using assms unfolding SimpleType_docs_def Let_def by (simp only: if_True)
  then show ?thesis
    by (simp only: facet_block facetLines_text)
qed

lemma facetLines_last_two:
  assumes "st_maxLength t = Some n" and "st_pattern t = Some p"
  shows "\<exists>before. facetLines lib t
           = before @ ['' * Max length: '' @ String_of_number lib n,
                       '' * Pattern: /'' @ escapeSlashes p @ ''/'']"
proof -
  have "facetLines lib t =
          List.map_filter id
            [map_option (\<lambda>n. '' * Min: '' @ String_of_number lib n) (st_minInclusive t),
             map_option (\<lambda>n. '' * Total digits: '' @ String_of_number lib n) (st_totalDigits t),
             map_option (\<lambda>n. '' * Fraction digits: '' @ String_of_number lib n) (st_fractionDigits t),
             map_option (\<lambda>n. '' * Min length: '' @ String_of_number lib n) (st_minLength t)]
          @ ['' * Max length: '' @ String_of_number lib n, '' * Pattern: /'' @ escapeSlashes p @ ''/'']"
    using assms by (simp add: facetLines_def List.map_filter_simps split: option.splits)
  then show ?thesis by blast
qed

text \<open>
  C7. When a simple type has at least one facet, its doc text is the text of the
  annotation and of the possible values, a line \<open>*\<close>, and the facet lines, each on a
  line of its own: one per facet present, in the order Min, Total digits, Fraction
  digits, Min length, Max length, Pattern. The declaration then carries the doc comment.
  With both \<open>maxLength\<close> and \<open>pattern\<close> the last two lines are Max length, then
  Pattern.
\<close>

theorem facet_lines_fixed_order:
  assumes "st_minInclusive t \<noteq> None \<or> st_totalDigits t \<noteq> None \<or> st_fractionDigits t \<noteq> None
            \<or> st_minLength t \<noteq> None \<or> st_maxLength t \<noteq> None \<or> st_pattern t \<noteq> None"
  shows "SimpleType_docs lib t
           = SimpleType_valueDocs t @ ''\<newline> *''
             @ concat (map (\<lambda>line. ''\<newline>'' @ line) (facetLines lib t))
         \<and> SimpleType_toTSType lib ctx t
           = ''/**\<newline>'' @ SimpleType_docs lib t @ ''\<newline> */\<newline>''
             @ ''export type '' @ SimpleType_toTSTypeName lib ctx t @ '' = ''
             @ SimpleType_tsType lib ctx t @ '';''
         \<and> (st_maxLength t = Some n \<and> st_pattern t = Some p \<longrightarrow>
              (\<exists>before. facetLines lib t
                 = before @ ['' * Max length: '' @ String_of_number lib n,
                             '' * Pattern: /'' @ escapeSlashes p @ ''/'']))"
proof -
  note docs = SimpleType_docs_facets [OF assms, of lib]
  then have "SimpleType_docs lib t \<noteq> []"
    by simp
  then have "SimpleType_toTSType lib ctx t
           = ''/**\<newline>'' @ SimpleType_docs lib t @ ''\<newline> */\<newline>''
             @ ''export type '' @ SimpleType_toTSTypeName lib ctx t @ '' = ''
             @ SimpleType_tsType lib ctx t @ '';''"
    by (simp add: SimpleType_toTSType_def)
  with docs facetLines_last_two [of t n p lib] show ?thesis
    by blast
qed


theorem facet_lines_fixed_order_witness:
  "SimpleType_toTSType
     \<lparr>toPascalCase = (\<lambda>s. s), Number_of_string = (\<lambda>s. NaN),
      String_of_number = (\<lambda>n. if n = Fin 3 then ''3'' else [])\<rparr>
     Context_new
     \<lparr>st_name = ''Code'', st_type = \<lparr>ref_namespace = ''urn:a'', ref_name = ''Text''\<rparr>,
      st_annotations = None, st_minInclusive = None, st_totalDigits = None,
      st_fractionDigits = None, st_minLength = None, st_maxLength = Some (Fin 3),
      st_pattern = Some ''a/b'', st_enumeration = None\<rparr>
   = ''/**\<newline>\<newline> *\<newline> * Max length: 3\<newline> * Pattern: /a'' @ [BS] @ ''/b/\<newline> */\<newline>''
     @ ''export type Code = unknown;''"
  (is "SimpleType_toTSType ?lib ?ctx ?t = ?text")
proof -
  have "st_minInclusive ?t \<noteq> None \<or> st_totalDigits ?t \<noteq> None \<or> st_fractionDigits ?t \<noteq> None
            \<or> st_minLength ?t \<noteq> None \<or> st_maxLength ?t \<noteq> None \<or> st_pattern ?t \<noteq> None"
    by simp
  from facet_lines_fixed_order [OF this, of ?lib ?ctx, THEN conjunct2, THEN conjunct1]
  have "SimpleType_toTSType ?lib ?ctx ?t
           = ''/**\<newline>'' @ SimpleType_docs ?lib ?t @ ''\<newline> */\<newline>''
             @ ''export type '' @ SimpleType_toTSTypeName ?lib ?ctx ?t @ '' = ''
             @ SimpleType_tsType ?lib ?ctx ?t @ '';''" .
  also have "\<dots> = ?text"
    by code_simp
  finally show ?thesis .
qed



section \<open>Properties of complex types\<close>

lemma prefixLines_empty: "prefixLines [] ''  '' = ''  ''"
  by (simp add: prefixLines_def)

lemma foldl_append_each: "foldl (\<lambda>b e. b @ f e) b es = b @ concat (map f es)"
  by (induction es arbitrary: b) simp_all

lemma foldl_skip_index:
  "foldl (\<lambda>b (j, v). if j = i then b else b @ g v) b (enumerate k vs)
   = b @ concat (map g (map snd (filter (\<lambda>(j, v). j \<noteq> i) (enumerate k vs))))"
  by (induction vs arbitrary: k b) simp_all

lemma filter_enumerate_others:
  "map snd (filter (\<lambda>(j, v). j \<noteq> k + i) (enumerate k vs)) = take i vs @ drop (Suc i) vs"
proof (induction vs arbitrary: k i)
  case Nil
  then show ?case by simp
next
  case (Cons v vs)
  show ?case
  proof (cases i)
    case 0
    have "filter (\<lambda>(j, v). j \<noteq> k) (enumerate (Suc k) vs) = enumerate (Suc k) vs"
      by (rule filter_True) (auto simp: in_set_enumerate_eq)
    with 0 show ?thesis by simp
  next
    case (Suc i')
    with Cons.IH [of "Suc k" i'] show ?thesis by simp
  qed
qed

lemma concat_map_concat:
  "concat (map (\<lambda>v. concat (map f (g v))) vs) = concat (map f (concat (map g vs)))"
  by (induction vs) simp_all

lemma undefined_fields_fold:
  "foldl
     (\<lambda>body (j, otherVariant).
        if j = i then body
        else foldl
               (\<lambda>body otherElement.
                  body @ ''\<newline>'' @ prefixLines [] ''  '' @ el_name otherElement @ ''?: undefined;'')
               body (var_elements otherVariant))
     body (enumerate 0 variants)
   = body @ concat (map undefinedField (concat (map var_elements (otherVariants variants i))))"
proof -
  have inner: "foldl
               (\<lambda>body otherElement.
                  body @ ''\<newline>'' @ prefixLines [] ''  '' @ el_name otherElement @ ''?: undefined;'')
               b es = b @ concat (map undefinedField es)" for b es
    using foldl_append_each [of undefinedField b es]
    by (simp add: undefinedField_def prefixLines_empty)
  have "foldl
     (\<lambda>body (j, otherVariant).
        if j = i then body
        else foldl
               (\<lambda>body otherElement.
                  body @ ''\<newline>'' @ prefixLines [] ''  '' @ el_name otherElement @ ''?: undefined;'')
               body (var_elements otherVariant))
     body (enumerate 0 variants)
     = foldl (\<lambda>b (j, v). if j = i then b else b @ concat (map undefinedField (var_elements v)))
         body (enumerate 0 variants)"
    by (simp only: inner)
  also have "\<dots> = body @ concat (map (\<lambda>v. concat (map undefinedField (var_elements v)))
                        (map snd (filter (\<lambda>(j, v). j \<noteq> i) (enumerate 0 variants))))"
    by (rule foldl_skip_index)
  also have "map snd (filter (\<lambda>(j, v). j \<noteq> i) (enumerate 0 variants)) = otherVariants variants i"
    using filter_enumerate_others [of 0 i variants] by (simp add: otherVariants_def)
  finally show ?thesis
    by (simp only: concat_map_concat)
qed


lemma unionMember_not_Nil [simp]: "unionMember lib ctx variants i \<noteq> []"
  by (simp add: unionMember_def)

lemma map_enumerate_nth:
  "map (\<lambda>(i, v). f i v) (enumerate 0 vs) = map (\<lambda>i. f i (vs ! i)) [0..<length vs]"
  by (rule nth_equalityI) (simp_all add: nth_enumerate_eq)

lemma union_fold:
  "foldl
     (\<lambda>body (i, variant).
        (let fields = join ''\<newline>'' (map (Element_toTSField lib ctx False) (var_elements variant));
             body = body @ (if body = [] then [] else '' | '')
                      @ ''{\<newline>'' @ prefixLines fields ''  '';
             body =
               foldl
                 (\<lambda>body (j, otherVariant).
                    if j = i then body
                    else foldl
                           (\<lambda>body otherElement.
                              body @ ''\<newline>'' @ prefixLines [] ''  ''
                                @ el_name otherElement @ ''?: undefined;'')
                           body (var_elements otherVariant))
                 body (enumerate 0 variants)
         in body @ ''\<newline>}''))
     [] (enumerate 0 variants)
   = join '' | '' (map (unionMember lib ctx variants) [0..<length variants])"
proof -
  let ?member = "\<lambda>(i, variant).
      ''{\<newline>''
      @ prefixLines (join ''\<newline>'' (map (Element_toTSField lib ctx False) (var_elements variant))) ''  ''
      @ concat (map undefinedField (concat (map var_elements (otherVariants variants i))))
      @ ''\<newline>}''"
  have "foldl
     (\<lambda>body (i, variant).
        (let fields = join ''\<newline>'' (map (Element_toTSField lib ctx False) (var_elements variant));
             body = body @ (if body = [] then [] else '' | '')
                      @ ''{\<newline>'' @ prefixLines fields ''  '';
             body =
               foldl
                 (\<lambda>body (j, otherVariant).
                    if j = i then body
                    else foldl
                           (\<lambda>body otherElement.
                              body @ ''\<newline>'' @ prefixLines [] ''  ''
                                @ el_name otherElement @ ''?: undefined;'')
                           body (var_elements otherVariant))
                 body (enumerate 0 variants)
         in body @ ''\<newline>}''))
     [] (enumerate 0 variants)
    = (if enumerate 0 variants = [] then []
       else [] @ (if [] = ([]::string) then [] else '' | '')
            @ join '' | '' (map ?member (enumerate 0 variants)))"
    by (rule foldl_separated) (auto simp: Let_def undefined_fields_fold)
  also have "\<dots> = join '' | '' (map ?member (enumerate 0 variants))"
    by simp
  also have "map ?member (enumerate 0 variants)
      = map (unionMember lib ctx variants) [0..<length variants]"
    unfolding unionMember_def by (rule map_enumerate_nth)
  finally show ?thesis .
qed


text \<open>
  C1. With two or more variants the type expression of a complex type is
  \<open>XmlElement\<close>, the record of the attributes if there are any, and a parenthesised
  union with one member per variant, in order. A member holds the fields of its own
  variant's elements, as \<open>Element.toTSField\<close> renders them, and then, for every
  element of every other variant, a line \<open>name?: undefined;\<close>. With exactly one
  variant there are no parentheses and no such lines: the record of the variant is
  intersected directly.
\<close>

theorem complexType_union:
  "(2 \<le> length variants \<longrightarrow>
      ComplexType_toTSTypeExpr lib ctx (ComplexType name annotations variants attributes)
        = ''XmlElement'' @ attributesRecord lib ctx attributes @ '' & (''
          @ join '' | '' (map (unionMember lib ctx variants) [0..<length variants]) @ '')'')
   \<and> ComplexType_toTSTypeExpr lib ctx (ComplexType name annotations [variant] attributes)
        = ''XmlElement'' @ attributesRecord lib ctx attributes @ '' & {\<newline>''
          @ prefixLines
              (join ''\<newline>'' (map (Element_toTSField lib ctx False) (var_elements variant))) ''  ''
          @ ''\<newline>}''"
proof (intro conjI impI)
  assume "2 \<le> length variants"
  then have "variants \<noteq> []" "1 < length variants"
    by auto
  then show "ComplexType_toTSTypeExpr lib ctx (ComplexType name annotations variants attributes)
        = ''XmlElement'' @ attributesRecord lib ctx attributes @ '' & (''
          @ join '' | '' (map (unionMember lib ctx variants) [0..<length variants]) @ '')''"
    using union_fold [of lib ctx variants] by (simp add: Let_def attributesRecord_def)
next
  have "join '' | '' (map (unionMember lib ctx [variant]) [0..<length [variant]])
      = ''{\<newline>''
        @ prefixLines
            (join ''\<newline>'' (map (Element_toTSField lib ctx False) (var_elements variant))) ''  ''
        @ ''\<newline>}''"
    by (simp add: unionMember_def otherVariants_def)
  with union_fold [of lib ctx "[variant]"] show "ComplexType_toTSTypeExpr lib ctx (ComplexType name annotations [variant] attributes)
        = ''XmlElement'' @ attributesRecord lib ctx attributes @ '' & {\<newline>''
          @ prefixLines
              (join ''\<newline>'' (map (Element_toTSField lib ctx False) (var_elements variant))) ''  ''
          @ ''\<newline>}''"
    by (simp add: Let_def attributesRecord_def)
qed

theorem complexType_union_witness:
  "ComplexType_toTSTypeExpr
     \<lparr>toPascalCase = (\<lambda>s. s), Number_of_string = (\<lambda>s. NaN), String_of_number = (\<lambda>n. [])\<rparr>
     Context_new
     (ComplexType ''Payment'' None
        [Variant [Element ''card'' (Ref \<lparr>ref_namespace = ''urn:a'', ref_name = ''Card''\<rparr>)
                    (Fin 1) (Fin 1) None],
         Variant [Element ''cash'' (Ref \<lparr>ref_namespace = ''urn:a'', ref_name = ''Cash''\<rparr>)
                    (Fin 1) (Fin 1) None]]
        [])
   = ''XmlElement & ({\<newline>  card: unknown;\<newline>  cash?: undefined;\<newline>} | ''
     @ ''{\<newline>  cash: unknown;\<newline>  card?: undefined;\<newline>})''"
  (is "ComplexType_toTSTypeExpr ?lib ?ctx (ComplexType ?name None ?variants []) = ?text")
proof -
  have "2 \<le> length ?variants"
    by simp
  with complexType_union [of ?variants ?lib ?ctx ?name None "[]"]
  have "ComplexType_toTSTypeExpr ?lib ?ctx (ComplexType ?name None ?variants [])
        = ''XmlElement'' @ attributesRecord ?lib ?ctx [] @ '' & (''
          @ join '' | '' (map (unionMember ?lib ?ctx ?variants) [0..<length ?variants]) @ '')''"
    by blast
  also have "\<dots> = ?text"
    by code_simp
  finally show ?thesis .
qed



section \<open>Properties of loading\<close>

lemma unregistered_type_unknown:
  "\<not> typeRegistered ctx r \<Longrightarrow> TypeReference_toTSTypeExpr lib ctx r = ''unknown''"
  by (auto simp: typeRegistered_def TypeReference_toTSTypeExpr_def Map_has_def split: option.splits)

lemma unregistered_element_not_found:
  assumes "Schema_resolveRef schema ref' = Some r" and "\<not> elementRegistered ctx r"
  shows "Element_fromXsd lib ctx schema (XsElement (ByRef ref') minOccurs maxOccurs annotation)
           = Inl (ElementNotFound (ref_namespace r) (ref_name r))"
  using assms by (simp add: elementRegistered_def)

subsection \<open>A throw ends the conversion of the declaration\<close>

lemma nested_reference_throws:
  "ref' \<in> set (XsElement_refs node) \<Longrightarrow> Schema_resolveRef schema ref' = Some r
    \<Longrightarrow> \<not> elementRegistered ctx r \<Longrightarrow> \<exists>e. Element_fromXsd lib ctx schema node = Inl e"
  "ref' \<in> set (XsElements_refs nodes) \<Longrightarrow> Schema_resolveRef schema ref' = Some r
    \<Longrightarrow> \<not> elementRegistered ctx r \<Longrightarrow> \<exists>e. Elements_fromXsd lib ctx schema nodes = Inl e"
  "ref' \<in> set (XsNestedElements_refs nested) \<Longrightarrow> Schema_resolveRef schema ref' = Some r
    \<Longrightarrow> \<not> elementRegistered ctx r
    \<Longrightarrow> \<exists>e. ComplexType_fromXsd lib ctx schema name annotation nested = Inl e"
proof (induction lib ctx schema node and lib ctx schema nodes and lib ctx schema name annotation nested
    rule: Element_fromXsd_Elements_fromXsd_ComplexType_fromXsd.induct)
  case (1 lib ctx schema shape minOccurs maxOccurs annotation)
  show ?case
  proof (cases shape)
    case (ByRef x)
    with "1.prems" have "x = ref'"
      by simp
    moreover have "Element_fromXsd lib ctx schema (XsElement (ByRef ref') minOccurs maxOccurs annotation)
        = Inl (ElementNotFound (ref_namespace r) (ref_name r))"
      using "1.prems"(2,3) by (rule unregistered_element_not_found)
    ultimately show ?thesis
      unfolding ByRef by blast
  next
    case (ByType name type')
    with "1.prems" show ?thesis by simp
  next
    case (ByComplexType name nested)
    with "1.prems" have "ref' \<in> set (XsNestedElements_refs nested)"
      by simp
    with ByComplexType "1.prems"(2,3)
    obtain e where "ComplexType_fromXsd lib ctx schema name None nested = Inl e"
      using "1.IH" by blast
    with ByComplexType show ?thesis
      by simp
  qed
next
  case (2 lib ctx schema)
  then show ?case by simp
next
  case (3 lib ctx schema node nodes)
  show ?case
  proof (cases "Element_fromXsd lib ctx schema node")
    case (Inl e)
    then show ?thesis by simp
  next
    case (Inr el)
    have "ref' \<notin> set (XsElement_refs node)"
      using "3.IH"(1) "3.prems"(2,3) Inr by auto
    with "3.prems"(1) have "ref' \<in> set (XsElements_refs nodes)"
      by simp
    with "3.IH"(2) [OF Inr] "3.prems"(2,3)
    obtain e where "Elements_fromXsd lib ctx schema nodes = Inl e"
      by blast
    with Inr show ?thesis
      by simp
  qed
next
  case (4 lib ctx schema name annotation attribute sequence' choice)
  show ?case
  proof (cases "Elements_fromXsd lib ctx schema sequence'")
    case (Inl e)
    then show ?thesis by simp
  next
    case sequence: (Inr els)
    have "ref' \<notin> set (XsElements_refs sequence')"
      using "4.IH"(1) "4.prems"(2,3) sequence by auto
    with "4.prems"(1) have "ref' \<in> set (XsElements_refs choice)"
      by simp
    with "4.IH"(2) [OF sequence] "4.prems"(2,3)
    obtain e where "Elements_fromXsd lib ctx schema choice = Inl e"
      by blast
    with sequence show ?thesis
      by simp
  qed
qed

subsection \<open>A throw ends the loops\<close>

lemma registerElements_append:
  "registerElements lib c ns (pre @ post)
     = (case registerElements lib c ns pre of
          Inl e \<Rightarrow> Inl e
        | Inr c' \<Rightarrow> registerElements lib c' ns post)"
  by (induction pre arbitrary: c) (simp_all split: sum.splits)

lemma registerComplexTypes_append:
  "registerComplexTypes lib c ns (pre @ post)
     = (case registerComplexTypes lib c ns pre of
          Inl e \<Rightarrow> Inl e
        | Inr c' \<Rightarrow> registerComplexTypes lib c' ns post)"
  by (induction pre arbitrary: c) (simp_all split: sum.splits)

lemma loadImports_append:
  "loadImports load h cwd c (pre @ post)
     = (case loadImports load h cwd c pre of
          None \<Rightarrow> None
        | Some (Inl e) \<Rightarrow> Some (Inl e)
        | Some (Inr c') \<Rightarrow> loadImports load h cwd c' post)"
  by (induction pre arbitrary: c) (simp_all add: Let_def split: option.splits sum.splits)

lemma loadAll_append:
  "loadAll fuel lib h c (pre @ post)
     = (case loadAll fuel lib h c pre of
          None \<Rightarrow> None
        | Some (Inl e) \<Rightarrow> Some (Inl e)
        | Some (Inr c') \<Rightarrow> loadAll fuel lib h c' post)"
  by (induction pre arbitrary: c) (simp_all split: option.splits sum.splits)

lemma element_throw_ends_ingestion:
  assumes "loadImports (loadSchemaWith (Schema_fromXsd fuel lib h) h) h cwd (enterSchema ctx doc)
             (xs_import doc) = Some (Inr c1)"
    and "xs_element doc = pre @ node # post"
    and "registerElements lib c1 (xs_targetNamespace doc) pre = Inr c2"
    and "Element_fromXsd lib c2 (Context_schema c2 (xs_targetNamespace doc)) node = Inl e"
  shows "Schema_fromXsd (Suc fuel) lib h ctx doc cwd = Some (Inl e)"
  using assms by (simp add: Let_def registerElements_append)

lemma complexType_throw_ends_ingestion:
  assumes "loadImports (loadSchemaWith (Schema_fromXsd fuel lib h) h) h cwd (enterSchema ctx doc)
             (xs_import doc) = Some (Inr c1)"
    and "registerElements lib c1 (xs_targetNamespace doc) (xs_element doc) = Inr c2"
    and "registerSimpleTypes lib c2 (xs_targetNamespace doc) (xs_simpleType doc) = Inr c3"
    and "xs_complexType doc = pre @ node # post"
    and "registerComplexTypes lib c3 (xs_targetNamespace doc) pre = Inr c4"
    and "ComplexType_fromXsd lib c4 (Context_schema c4 (xs_targetNamespace doc)) (xct_name node)
           (xct_annotation node) (xct_nested node) = Inl e"
  shows "Schema_fromXsd (Suc fuel) lib h ctx doc cwd = Some (Inl e)"
  using assms by (simp add: Let_def registerComplexTypes_append)

lemma import_throw_ends_ingestion:
  assumes "xs_import doc = pre @ importNode # post"
    and "loadImports (loadSchemaWith (Schema_fromXsd fuel lib h) h) h cwd (enterSchema ctx doc) pre
           = Some (Inr c0)"
    and "\<not> Map_has (schemas c0) (xi_namespace importNode)"
    and "Context_loadSchema fuel lib h c0
           (if startsWith (xi_schemaLocation importNode) ''/''
               \<or> startsWith (xi_schemaLocation importNode) ''http://''
               \<or> startsWith (xi_schemaLocation importNode) ''https://''
            then xi_schemaLocation importNode
            else path_join h cwd (xi_schemaLocation importNode)) = Some (Inl e)"
  shows "Schema_fromXsd (Suc fuel) lib h ctx doc cwd = Some (Inl e)"
  using assms by (simp add: Let_def loadImports_append Context_loadSchema_def)

lemma load_throw_ends_main:
  assumes "positionals = pre @ path' # post"
    and "loadAll fuel lib h (configure stripPrefix attributePrefix') pre = Some (Inr c0)"
    and "Context_loadSchema fuel lib h c0 path' = Some (Inl e)"
  shows "main fuel lib h stripPrefix attributePrefix' positionals = Some (Inl e)"
  using assms by (simp add: main_def loadAll_append)

lemma loadSchema_ingests:
  "readSchema h path' = Some doc
    \<Longrightarrow> Context_loadSchema fuel lib h ctx path' = Schema_fromXsd fuel lib h ctx doc (cwdFromPath h path')"
  by (simp add: Context_loadSchema_def loadSchemaWith_def)

text \<open>
  C2. A type reference with no type registered under its namespace and name renders
  as \<open>unknown\<close>, and so does the field of an element of that type; rendering has no
  error result, and once the documents are loaded \<open>main\<close> prints the text.

  An element node with \<open>ref=\<close> whose resolved target has no registered element makes
  \<open>Element.fromXsd\<close> throw \<open>Element not found\<close>, and the conversion of an element
  or of a complex type that holds such a node at any depth throws. The throw ends the
  run, wherever the node is:

    \<^item> a throw in the conversion of a top-level element or of a complex type, at any
      position among the declarations of its document, ends \<open>Schema.fromXsd\<close> of that
      document with the same error (the declarations before it having been registered);

    \<^item> a throw while an imported document loads ends \<open>Schema.fromXsd\<close> of the
      importing document with the same error, at any position among the imports;

    \<^item> \<open>Context.loadSchema\<close> of a path is \<open>Schema.fromXsd\<close> of the document read
      there, so the two facts above apply at every depth of import;

    \<^item> a throw while one of the documents given to \<open>main\<close> loads, at any position
      among them, ends \<open>main\<close> with the same error and nothing printed.
\<close>

theorem unresolved_reference:
  "(\<not> typeRegistered ctx r \<longrightarrow>
      TypeReference_toTSTypeExpr lib ctx r = ''unknown''
      \<and> Element_toTSField lib ctx omitDocs (Element name (Ref r) minOccurs maxOccurs annotations)
          = (case annotations of None \<Rightarrow> [] | Some ann \<Rightarrow> if omitDocs then [] else docBlock ann)
            @ name @ (if jsnum_eq minOccurs (Fin 0) then ''?'' else []) @ '': ''
            @ (if jsnum_gt maxOccurs (Fin 1) then ''Many<unknown>'' else ''unknown'') @ '';'')
   \<and> (loadAll fuel lib h (configure stripPrefix attributePrefix') paths = Some (Inr ctx') \<longrightarrow>
        main fuel lib h stripPrefix attributePrefix' paths = Some (Inr (Context_toTS lib ctx')))
   \<and> (Schema_resolveRef schema ref' = Some r' \<and> \<not> elementRegistered ctx r' \<longrightarrow>
        Element_fromXsd lib ctx schema (XsElement (ByRef ref') minOccurs' maxOccurs' annotation)
          = Inl (ElementNotFound (ref_namespace r') (ref_name r'))
        \<and> (ref' \<in> set (XsElement_refs node) \<longrightarrow>
             (\<exists>e. Element_fromXsd lib ctx schema node = Inl e))
        \<and> (ref' \<in> set (XsNestedElements_refs nested) \<longrightarrow>
             (\<exists>e. ComplexType_fromXsd lib ctx schema typeName typeAnnotation nested = Inl e)))
   \<and> (loadImports (loadSchemaWith (Schema_fromXsd fuel lib h) h) h cwd (enterSchema ctx doc)
         (xs_import doc) = Some (Inr c1) \<longrightarrow>
        (xs_element doc = elementsBefore @ elementNode # elementsAfter
         \<and> registerElements lib c1 (xs_targetNamespace doc) elementsBefore = Inr c2
         \<and> Element_fromXsd lib c2 (Context_schema c2 (xs_targetNamespace doc)) elementNode = Inl e
         \<longrightarrow> Schema_fromXsd (Suc fuel) lib h ctx doc cwd = Some (Inl e))
        \<and> (registerElements lib c1 (xs_targetNamespace doc) (xs_element doc) = Inr c3
           \<and> registerSimpleTypes lib c3 (xs_targetNamespace doc) (xs_simpleType doc) = Inr c4
           \<and> xs_complexType doc = typesBefore @ typeNode # typesAfter
           \<and> registerComplexTypes lib c4 (xs_targetNamespace doc) typesBefore = Inr c5
           \<and> ComplexType_fromXsd lib c5 (Context_schema c5 (xs_targetNamespace doc))
                (xct_name typeNode) (xct_annotation typeNode) (xct_nested typeNode) = Inl e
           \<longrightarrow> Schema_fromXsd (Suc fuel) lib h ctx doc cwd = Some (Inl e)))
   \<and> (xs_import doc = importsBefore @ importNode # importsAfter
       \<and> loadImports (loadSchemaWith (Schema_fromXsd fuel lib h) h) h cwd (enterSchema ctx doc)
           importsBefore = Some (Inr c0)
       \<and> \<not> Map_has (schemas c0) (xi_namespace importNode)
       \<and> Context_loadSchema fuel lib h c0
           (if startsWith (xi_schemaLocation importNode) ''/''
               \<or> startsWith (xi_schemaLocation importNode) ''http://''
               \<or> startsWith (xi_schemaLocation importNode) ''https://''
            then xi_schemaLocation importNode
            else path_join h cwd (xi_schemaLocation importNode)) = Some (Inl e)
       \<longrightarrow> Schema_fromXsd (Suc fuel) lib h ctx doc cwd = Some (Inl e))
   \<and> (readSchema h path' = Some doc \<longrightarrow>
        Context_loadSchema fuel lib h ctx path'
          = Schema_fromXsd fuel lib h ctx doc (cwdFromPath h path'))
   \<and> (paths = pathsBefore @ path' # pathsAfter
       \<and> loadAll fuel lib h (configure stripPrefix attributePrefix') pathsBefore = Some (Inr c0)
       \<and> Context_loadSchema fuel lib h c0 path' = Some (Inl e)
       \<longrightarrow> main fuel lib h stripPrefix attributePrefix' paths = Some (Inl e))"
proof (intro conjI impI; (elim conjE)?)
  assume "\<not> typeRegistered ctx r"
  then show unknown: "TypeReference_toTSTypeExpr lib ctx r = ''unknown''"
    by (rule unregistered_type_unknown)
  show "Element_toTSField lib ctx omitDocs (Element name (Ref r) minOccurs maxOccurs annotations)
          = (case annotations of None \<Rightarrow> [] | Some ann \<Rightarrow> if omitDocs then [] else docBlock ann)
            @ name @ (if jsnum_eq minOccurs (Fin 0) then ''?'' else []) @ '': ''
            @ (if jsnum_gt maxOccurs (Fin 1) then ''Many<unknown>'' else ''unknown'') @ '';''"
    using unknown by (simp add: Element_toTSField_eq resolvedTypeExpr_def)
next
  assume "loadAll fuel lib h (configure stripPrefix attributePrefix') paths = Some (Inr ctx')"
  then show "main fuel lib h stripPrefix attributePrefix' paths = Some (Inr (Context_toTS lib ctx'))"
    by (simp add: main_def)
next
  assume "Schema_resolveRef schema ref' = Some r'" and "\<not> elementRegistered ctx r'"
  then show "Element_fromXsd lib ctx schema (XsElement (ByRef ref') minOccurs' maxOccurs' annotation)
          = Inl (ElementNotFound (ref_namespace r') (ref_name r'))"
    by (rule unregistered_element_not_found)
next
  assume "ref' \<in> set (XsElement_refs node)"
    and "Schema_resolveRef schema ref' = Some r'" and "\<not> elementRegistered ctx r'"
  then show "\<exists>e. Element_fromXsd lib ctx schema node = Inl e"
    by (rule nested_reference_throws)
next
  assume "ref' \<in> set (XsNestedElements_refs nested)"
    and "Schema_resolveRef schema ref' = Some r'" and "\<not> elementRegistered ctx r'"
  then show "\<exists>e. ComplexType_fromXsd lib ctx schema typeName typeAnnotation nested = Inl e"
    by (rule nested_reference_throws)
next
  assume "loadImports (loadSchemaWith (Schema_fromXsd fuel lib h) h) h cwd (enterSchema ctx doc)
         (xs_import doc) = Some (Inr c1)"
    and "xs_element doc = elementsBefore @ elementNode # elementsAfter"
    and "registerElements lib c1 (xs_targetNamespace doc) elementsBefore = Inr c2"
    and "Element_fromXsd lib c2 (Context_schema c2 (xs_targetNamespace doc)) elementNode = Inl e"
  then show "Schema_fromXsd (Suc fuel) lib h ctx doc cwd = Some (Inl e)"
    by (rule element_throw_ends_ingestion)
next
  assume "loadImports (loadSchemaWith (Schema_fromXsd fuel lib h) h) h cwd (enterSchema ctx doc)
         (xs_import doc) = Some (Inr c1)"
    and "registerElements lib c1 (xs_targetNamespace doc) (xs_element doc) = Inr c3"
    and "registerSimpleTypes lib c3 (xs_targetNamespace doc) (xs_simpleType doc) = Inr c4"
    and "xs_complexType doc = typesBefore @ typeNode # typesAfter"
    and "registerComplexTypes lib c4 (xs_targetNamespace doc) typesBefore = Inr c5"
    and "ComplexType_fromXsd lib c5 (Context_schema c5 (xs_targetNamespace doc))
                (xct_name typeNode) (xct_annotation typeNode) (xct_nested typeNode) = Inl e"
  then show "Schema_fromXsd (Suc fuel) lib h ctx doc cwd = Some (Inl e)"
    by (rule complexType_throw_ends_ingestion)
next
  assume "xs_import doc = importsBefore @ importNode # importsAfter"
    and "loadImports (loadSchemaWith (Schema_fromXsd fuel lib h) h) h cwd (enterSchema ctx doc)
           importsBefore = Some (Inr c0)"
    and "\<not> Map_has (schemas c0) (xi_namespace importNode)"
    and "Context_loadSchema fuel lib h c0
           (if startsWith (xi_schemaLocation importNode) ''/''
               \<or> startsWith (xi_schemaLocation importNode) ''http://''
               \<or> startsWith (xi_schemaLocation importNode) ''https://''
            then xi_schemaLocation importNode
            else path_join h cwd (xi_schemaLocation importNode)) = Some (Inl e)"
  then show "Schema_fromXsd (Suc fuel) lib h ctx doc cwd = Some (Inl e)"
    by (rule import_throw_ends_ingestion)
next
  assume "readSchema h path' = Some doc"
  then show "Context_loadSchema fuel lib h ctx path'
          = Schema_fromXsd fuel lib h ctx doc (cwdFromPath h path')"
    by (rule loadSchema_ingests)
next
  assume "paths = pathsBefore @ path' # pathsAfter"
    and "loadAll fuel lib h (configure stripPrefix attributePrefix') pathsBefore = Some (Inr c0)"
    and "Context_loadSchema fuel lib h c0 path' = Some (Inl e)"
  then show "main fuel lib h stripPrefix attributePrefix' paths = Some (Inl e)"
    by (rule load_throw_ends_main)
qed

theorem unresolved_reference_witness:
  "Element_toTSField
     \<lparr>toPascalCase = (\<lambda>s. s), Number_of_string = (\<lambda>s. NaN), String_of_number = (\<lambda>n. [])\<rparr>
     Context_new False
     (Element ''item'' (Ref \<lparr>ref_namespace = ''urn:a'', ref_name = ''Missing''\<rparr>) (Fin 1) (Fin 1) None)
     = ''item: unknown;''
   \<and> (\<exists>e. ComplexType_fromXsd
          \<lparr>toPascalCase = (\<lambda>s. s), Number_of_string = (\<lambda>s. NaN), String_of_number = (\<lambda>n. [])\<rparr>
          Context_new (Schema_new ''urn:c'') ''Holder'' None
          (XsNestedElements [] []
           [XsElement
              (ByComplexType ''inner''
                 (XsNestedElements [] [XsElement (ByRef ''ghost'') None None None] []))
              None None None])
        = Inl e)
   \<and> main (Suc (Suc 0))
       \<lparr>toPascalCase = (\<lambda>s. s), Number_of_string = (\<lambda>s. NaN), String_of_number = (\<lambda>n. [])\<rparr>
       \<lparr>URL_parse = (\<lambda>p. None), path_dirname = (\<lambda>p. []), path_join = (\<lambda>d p. p),
        readSchema = (\<lambda>p.
           if p = ''a.xsd''
           then Some \<lparr>xs_targetNamespace = ''urn:a'', xs_keys = [], xs_import = [],
                      xs_element = [XsElement (ByType ''root'' ''Missing'') None None None],
                      xs_simpleType = [], xs_complexType = []\<rparr>
           else if p = ''b.xsd''
           then Some \<lparr>xs_targetNamespace = ''urn:b'', xs_keys = [],
                      xs_import = [\<lparr>xi_namespace = ''urn:c'', xi_schemaLocation = ''c.xsd''\<rparr>],
                      xs_element = [], xs_simpleType = [], xs_complexType = []\<rparr>
           else if p = ''c.xsd''
           then Some \<lparr>xs_targetNamespace = ''urn:c'', xs_keys = [], xs_import = [],
                      xs_element = [XsElement (ByType ''ok'' ''T'') None None None],
                      xs_simpleType = [],
                      xs_complexType =
                        [\<lparr>xct_name = ''Plain'', xct_annotation = None,
                          xct_nested = XsNestedElements [] [] []\<rparr>,
                         \<lparr>xct_name = ''Holder'', xct_annotation = None,
                          xct_nested =
                            XsNestedElements [] []
                            [XsElement
                               (ByComplexType ''inner''
                                  (XsNestedElements [] [XsElement (ByRef ''ghost'') None None None] []))
                               None None None]\<rparr>]\<rparr>
           else None)\<rparr>
       [] None [''a.xsd'', ''b.xsd'']
     = Some (Inl (ElementNotFound ''urn:c'' ''ghost''))"
  (is "Element_toTSField ?lib _ _ (Element _ (Ref ?r) _ _ _) = _
       \<and> (\<exists>e. ComplexType_fromXsd _ _ _ _ _ ?nested = Inl e)
       \<and> main _ _ ?h _ _ _ = _")
proof -
  let ?docB = "\<lparr>xs_targetNamespace = ''urn:b'', xs_keys = [],
                      xs_import = [\<lparr>xi_namespace = ''urn:c'', xi_schemaLocation = ''c.xsd''\<rparr>],
                      xs_element = [], xs_simpleType = [], xs_complexType = []\<rparr>"
  let ?docC = "\<lparr>xs_targetNamespace = ''urn:c'', xs_keys = [], xs_import = [],
                      xs_element = [XsElement (ByType ''ok'' ''T'') None None None],
                      xs_simpleType = [],
                      xs_complexType =
                        [\<lparr>xct_name = ''Plain'', xct_annotation = None,
                          xct_nested = XsNestedElements [] [] []\<rparr>,
                         \<lparr>xct_name = ''Holder'', xct_annotation = None,
                          xct_nested =
                            XsNestedElements [] []
                            [XsElement
                               (ByComplexType ''inner''
                                  (XsNestedElements [] [XsElement (ByRef ''ghost'') None None None] []))
                               None None None]\<rparr>]\<rparr>"
  let ?plain = "\<lparr>xct_name = ''Plain'', xct_annotation = None, xct_nested = XsNestedElements [] [] []\<rparr>"
  let ?holder = "\<lparr>xct_name = ''Holder'', xct_annotation = None, xct_nested = ?nested\<rparr>"
  let ?ghost = "\<lparr>ref_namespace = ''urn:c'', ref_name = ''ghost''\<rparr>"
  let ?e = "ElementNotFound ''urn:c'' ''ghost''"
  note rendered = unresolved_reference [THEN conjunct1, rule_format]
  note converted = unresolved_reference [THEN conjunct2, THEN conjunct2, THEN conjunct1, rule_format]
  note ingested = unresolved_reference [THEN conjunct2, THEN conjunct2, THEN conjunct2, THEN conjunct1,
      rule_format]
  note imported = unresolved_reference [THEN conjunct2, THEN conjunct2, THEN conjunct2,
      THEN conjunct2, THEN conjunct1, rule_format]
  note loaded = unresolved_reference [THEN conjunct2, THEN conjunct2, THEN conjunct2,
      THEN conjunct2, THEN conjunct2, THEN conjunct1, rule_format]
  note run = unresolved_reference [THEN conjunct2, THEN conjunct2, THEN conjunct2,
      THEN conjunct2, THEN conjunct2, THEN conjunct2, rule_format]

  have "\<not> typeRegistered Context_new ?r"
    by code_simp
  from rendered [OF this, of ?lib False "''item''" "Fin 1" "Fin 1" None]
  have field: "Element_toTSField ?lib Context_new False (Element ''item'' (Ref ?r) (Fin 1) (Fin 1) None)
      = ''item: unknown;''"
    by simp

  have "Schema_resolveRef (Schema_new ''urn:c'') ''ghost'' = Some ?ghost"
    "\<not> elementRegistered Context_new ?ghost"
    by code_simp+
  then have "Schema_resolveRef (Schema_new ''urn:c'') ''ghost'' = Some ?ghost
      \<and> \<not> elementRegistered Context_new ?ghost"
    by (rule conjI)
  from converted [OF this, THEN conjunct2, THEN conjunct2, rule_format, of ?nested ?lib "''Holder''" None]
  have nested: "\<exists>e. ComplexType_fromXsd ?lib Context_new (Schema_new ''urn:c'') ''Holder'' None ?nested
      = Inl e"
    by simp

  define cA where "cA =
    (case loadAll (Suc (Suc 0)) ?lib ?h (configure [] None) [''a.xsd''] of
       Some (Inr c) \<Rightarrow> c | _ \<Rightarrow> Context_new)"
  define cB where "cB = enterSchema cA ?docB"
  define cC where "cC = enterSchema cB ?docC"
  define cE where "cE =
    (case registerElements ?lib cC ''urn:c'' (xs_element ?docC) of Inr c \<Rightarrow> c | _ \<Rightarrow> Context_new)"
  define cT where "cT =
    (case registerComplexTypes ?lib cE ''urn:c'' [?plain] of Inr c \<Rightarrow> c | _ \<Rightarrow> Context_new)"

  have first: "loadAll (Suc (Suc 0)) ?lib ?h (configure [] None) [''a.xsd''] = Some (Inr cA)"
    unfolding cA_def by code_simp
  have elements: "registerElements ?lib cC (xs_targetNamespace ?docC) (xs_element ?docC) = Inr cE"
    unfolding cE_def cC_def cB_def cA_def by code_simp
  have simple: "registerSimpleTypes ?lib cE (xs_targetNamespace ?docC) (xs_simpleType ?docC) = Inr cE"
    by simp
  have plain: "registerComplexTypes ?lib cE (xs_targetNamespace ?docC) [?plain] = Inr cT"
    unfolding cT_def cE_def cC_def cB_def cA_def by code_simp
  have holder: "ComplexType_fromXsd ?lib cT (Context_schema cT (xs_targetNamespace ?docC))
      (xct_name ?holder) (xct_annotation ?holder) (xct_nested ?holder) = Inl ?e"
    unfolding cT_def cE_def cC_def cB_def cA_def by code_simp
  have "Schema_fromXsd (Suc 0) ?lib ?h cB ?docC (cwdFromPath ?h ''c.xsd'') = Some (Inl ?e)"
  proof (rule ingested [THEN conjunct2, rule_format])
    show "loadImports (loadSchemaWith (Schema_fromXsd 0 ?lib ?h) ?h) ?h (cwdFromPath ?h ''c.xsd'')
        (enterSchema cB ?docC) (xs_import ?docC) = Some (Inr cC)"
      by (simp add: cC_def)
    show "registerElements ?lib cC (xs_targetNamespace ?docC) (xs_element ?docC) = Inr cE
      \<and> registerSimpleTypes ?lib cE (xs_targetNamespace ?docC) (xs_simpleType ?docC) = Inr cE
      \<and> xs_complexType ?docC = [?plain] @ ?holder # []
      \<and> registerComplexTypes ?lib cE (xs_targetNamespace ?docC) [?plain] = Inr cT
      \<and> ComplexType_fromXsd ?lib cT (Context_schema cT (xs_targetNamespace ?docC))
           (xct_name ?holder) (xct_annotation ?holder) (xct_nested ?holder) = Inl ?e"
      using elements simple plain holder by (intro conjI) simp_all
  qed
  moreover have "readSchema ?h ''c.xsd'' = Some ?docC"
    by simp
  ultimately have third: "Context_loadSchema (Suc 0) ?lib ?h cB ''c.xsd'' = Some (Inl ?e)"
    by (simp only: loaded)
  have absent: "\<not> Map_has (schemas cB) ''urn:c''"
    unfolding cB_def cA_def by code_simp
  have "Schema_fromXsd (Suc (Suc 0)) ?lib ?h cA ?docB (cwdFromPath ?h ''b.xsd'') = Some (Inl ?e)"
  proof (rule imported)
    show "xs_import ?docB = [] @ \<lparr>xi_namespace = ''urn:c'', xi_schemaLocation = ''c.xsd''\<rparr> # []
      \<and> loadImports (loadSchemaWith (Schema_fromXsd (Suc 0) ?lib ?h) ?h) ?h (cwdFromPath ?h ''b.xsd'')
           (enterSchema cA ?docB) [] = Some (Inr cB)
      \<and> \<not> Map_has (schemas cB) (xi_namespace \<lparr>xi_namespace = ''urn:c'', xi_schemaLocation = ''c.xsd''\<rparr>)
      \<and> Context_loadSchema (Suc 0) ?lib ?h cB
           (if startsWith (xi_schemaLocation \<lparr>xi_namespace = ''urn:c'', xi_schemaLocation = ''c.xsd''\<rparr>) ''/''
               \<or> startsWith (xi_schemaLocation \<lparr>xi_namespace = ''urn:c'', xi_schemaLocation = ''c.xsd''\<rparr>) ''http://''
               \<or> startsWith (xi_schemaLocation \<lparr>xi_namespace = ''urn:c'', xi_schemaLocation = ''c.xsd''\<rparr>) ''https://''
            then xi_schemaLocation \<lparr>xi_namespace = ''urn:c'', xi_schemaLocation = ''c.xsd''\<rparr>
            else path_join ?h (cwdFromPath ?h ''b.xsd'')
                   (xi_schemaLocation \<lparr>xi_namespace = ''urn:c'', xi_schemaLocation = ''c.xsd''\<rparr>))
          = Some (Inl ?e)"
      using absent third by (simp add: cB_def)
  qed
  moreover have "readSchema ?h ''b.xsd'' = Some ?docB"
    by simp
  ultimately have second: "Context_loadSchema (Suc (Suc 0)) ?lib ?h cA ''b.xsd'' = Some (Inl ?e)"
    by (simp only: loaded)
  have "main (Suc (Suc 0)) ?lib ?h [] None [''a.xsd'', ''b.xsd''] = Some (Inl ?e)"
  proof (rule run)
    show "[''a.xsd'', ''b.xsd''] = [''a.xsd''] @ ''b.xsd'' # []
      \<and> loadAll (Suc (Suc 0)) ?lib ?h (configure [] None) [''a.xsd''] = Some (Inr cA)
      \<and> Context_loadSchema (Suc (Suc 0)) ?lib ?h cA ''b.xsd'' = Some (Inl ?e)"
      using first second by simp
  qed
  with field nested show ?thesis
    by (intro conjI)
qed


section \<open>Properties of merging documents\<close>

text \<open>
  A \<open>Map\<close> keeps one entry for each key, so the schemas of a context and the types of
  a schema are association lists whose keys are distinct as long as they are only
  written through \<open>Map_set\<close>. An ingestion only ever adds to a context: schemas stay,
  and the keys of their maps stay.
\<close>

subsection \<open>Maps\<close>




lemma Map_get_None_keys: "Map_get m k = None \<longleftrightarrow> k \<notin> fst ` set m"
  by (induction m) (auto split: if_splits)



subsection \<open>Contexts that grow\<close>

definition schemaGrows :: "Schema \<Rightarrow> Schema \<Rightarrow> bool" where
  "schemaGrows S S' \<longleftrightarrow>
     (\<forall>n. Map_has (aliasedSchemas S) n \<longrightarrow> Map_has (aliasedSchemas S') n)
     \<and> (\<forall>n. Map_has (schema_elements S) n \<longrightarrow> Map_has (schema_elements S') n)
     \<and> (\<forall>n. Map_has (schema_types S) n \<longrightarrow> Map_has (schema_types S') n)
     \<and> (\<forall>n t. Map_get (schema_types S) n = Some t \<and> TypeDefinition_name t = n \<longrightarrow>
           (\<exists>t'. Map_get (schema_types S') n = Some t' \<and> TypeDefinition_name t' = n))"

definition contextGrows :: "Context \<Rightarrow> Context \<Rightarrow> bool" where
  "contextGrows c c' \<longleftrightarrow>
     (distinct (map fst (schemas c)) \<longrightarrow> distinct (map fst (schemas c')))
     \<and> (\<forall>k S. Map_get (schemas c) k = Some S \<longrightarrow>
           (\<exists>S'. Map_get (schemas c') k = Some S' \<and> schemaGrows S S'))"

lemma schemaGrows_refl [simp]: "schemaGrows S S"
  by (simp add: schemaGrows_def)


lemma contextGrows_refl [simp]: "contextGrows c c"
  by (simp add: contextGrows_def)

















subsection \<open>What a conversion reads\<close>









subsection \<open>What the registration loops change\<close>











lemma loadImports_nothing:
  "list_all (\<lambda>node. Map_has (schemas c) (xi_namespace node)) nodes
    \<Longrightarrow> loadImports load h cwd c nodes = Some (Inr c)"
  by (induction nodes) simp_all















subsection \<open>One ingestion\<close>












subsection \<open>The rendered block\<close>





subsection \<open>The depth allowed to nested loads\<close>

lemma loadImports_more:
  assumes "\<And>c p r. load c p = Some r \<Longrightarrow> load' c p = Some r"
    and "loadImports load h cwd ctx nodes = Some r"
  shows "loadImports load' h cwd ctx nodes = Some r"
  using assms(2)
proof (induction nodes arbitrary: ctx)
  case Nil
  then show ?case by simp
next
  case (Cons importNode nodes)
  show ?case
  proof (cases "Map_has (schemas ctx) (xi_namespace importNode)")
    case True
    with Cons show ?thesis by simp
  next
    case False
    define path' where "path' =
      (if startsWith (xi_schemaLocation importNode) ''/''
          \<or> startsWith (xi_schemaLocation importNode) ''http://''
          \<or> startsWith (xi_schemaLocation importNode) ''https://''
       then xi_schemaLocation importNode else path_join h cwd (xi_schemaLocation importNode))"
    from False Cons.prems have run:
      "(case load ctx path' of None \<Rightarrow> None | Some (Inl e) \<Rightarrow> Some (Inl e)
        | Some (Inr ctx') \<Rightarrow> loadImports load h cwd ctx' nodes) = Some r"
      by (simp add: Let_def path'_def)
    then obtain r' where r': "load ctx path' = Some r'"
      by (cases "load ctx path'") auto
    then have r'': "load' ctx path' = Some r'"
      by (rule assms(1))
    have "(case load' ctx path' of None \<Rightarrow> None | Some (Inl e) \<Rightarrow> Some (Inl e)
        | Some (Inr ctx') \<Rightarrow> loadImports load' h cwd ctx' nodes) = Some r"
    proof (cases r')
      case (Inl e)
      with run r' have "r = Inl e" by simp
      with Inl r'' show ?thesis by simp
    next
      case (Inr ctx')
      with run r' have "loadImports load h cwd ctx' nodes = Some r" by simp
      then have "loadImports load' h cwd ctx' nodes = Some r" by (rule Cons.IH)
      with Inr r'' show ?thesis by simp
    qed
    with False show ?thesis
      by (simp add: Let_def path'_def)
  qed
qed

lemma fromXsd_Suc_fuel:
  "Schema_fromXsd fuel lib h ctx node cwd = Some r
    \<Longrightarrow> Schema_fromXsd (Suc fuel) lib h ctx node cwd = Some r"
proof (induction fuel arbitrary: ctx node cwd r)
  case 0
  then show ?case by simp
next
  case (Suc fuel)
  have step: "\<And>c p r. loadSchemaWith (Schema_fromXsd fuel lib h) h c p = Some r
      \<Longrightarrow> loadSchemaWith (Schema_fromXsd (Suc fuel) lib h) h c p = Some r"
    unfolding loadSchemaWith_def using Suc.IH by (auto split: option.splits)
  from Suc.prems obtain r' where
    r': "loadImports (loadSchemaWith (Schema_fromXsd fuel lib h) h) h cwd
           (enterSchema ctx node) (xs_import node) = Some r'"
    by (cases "loadImports (loadSchemaWith (Schema_fromXsd fuel lib h) h) h cwd
           (enterSchema ctx node) (xs_import node)") (auto simp add: Let_def)
  from step r' have
    "loadImports (loadSchemaWith (Schema_fromXsd (Suc fuel) lib h) h) h cwd
           (enterSchema ctx node) (xs_import node) = Some r'"
    by (rule loadImports_more)
  with r' Suc.prems show ?case
    by (simp add: Let_def)
qed

lemma fromXsd_more_fuel:
  "Schema_fromXsd fuel lib h ctx node cwd = Some r
    \<Longrightarrow> Schema_fromXsd (fuel + k) lib h ctx node cwd = Some r"
  by (induction k) (simp_all add: fromXsd_Suc_fuel del: Schema_fromXsd.simps)

lemma fromXsd_returns:
  assumes "list_all (\<lambda>node. Map_has (schemas (enterSchema ctx doc)) (xi_namespace node))
             (xs_import doc)"
  shows "\<exists>r. Schema_fromXsd (Suc fuel) lib h ctx doc cwd = Some r"
  using assms by (simp add: Let_def loadImports_nothing split: sum.splits)


subsection \<open>What an ingestion leaves alone\<close>







subsection \<open>The text of a declaration\<close>



subsection \<open>Two documents of one namespace\<close>




end
